theory Spec2Isabelle
  imports Complex_Main
begin

section \<open>Neon Racer: the per-room authoritative race engine\<close>

text \<open>
  A shallow embedding of the race server (the socket handlers and the 30 TPS broadcast
  loop). Conventions of the embedding:

  \<^item> \<open>Date.now()\<close> is an explicit argument \<open>now\<close> (integer milliseconds).
  \<^item> JavaScript numbers that carry coordinates, distances and speeds are \<open>real\<close>;
    timestamps are \<open>int\<close>. Rounding of doubles, \<open>NaN\<close> and infinities are outside
    the model.
  \<^item> \<open>null\<close> is \<open>None\<close>; where the code does arithmetic on a possibly-null field,
    \<open>num\<close> gives the \<open>0\<close> that JavaScript coerces \<open>null\<close> to.
  \<^item> The object \<open>room.players\<close> is an association list in insertion order. Socket
    ids are never integer-like keys, so \<open>for ... in\<close>, \<open>Object.keys\<close>,
    \<open>Object.values\<close> and \<open>Object.entries\<close> enumerate in insertion order.
  \<^item> \<open>Math.random()\<close> is an explicit sequence \<open>rnd\<close>: the \<open>k\<close>-th call of a tick
    on a room returns \<open>rnd k\<close>.
  \<^item> Every \<open>emit\<close> is returned in a list, tagged with its audience: the sending socket,
    every socket of the room, or every socket of the room but the sender.
  \<^item> \<open>console.log\<close> and the socket.io room membership (\<open>socket.join\<close>,
    \<open>socket.leave\<close>) are transport and are left out.
\<close>

subsection \<open>Constants\<close>

type_synonym sid = string
type_synonym time = int

datatype race_state = WAITING | COUNTDOWN | RACING | PAUSED | FINISHED

definition MIN_PLAYERS_TO_START :: nat where "MIN_PLAYERS_TO_START = 2"
definition DEFAULT_RACE_DISTANCE :: int where "DEFAULT_RACE_DISTANCE = 1000"
definition COUNTDOWN_SECONDS :: int where "COUNTDOWN_SECONDS = 3"

definition OBSTACLE_SPAWN_INTERVAL :: real where "OBSTACLE_SPAWN_INTERVAL = 50"
definition OBSTACLE_DESPAWN_DISTANCE :: real where "OBSTACLE_DESPAWN_DISTANCE = 100"
definition SPAWN_AHEAD_DISTANCE :: real where "SPAWN_AHEAD_DISTANCE = 300"
definition PIXELS_PER_METER :: real where "PIXELS_PER_METER = 2"

definition BASE_ROAD_WIDTH :: real where "BASE_ROAD_WIDTH = 200"
definition MAX_ROAD_WIDTH :: real where "MAX_ROAD_WIDTH = 400"
definition ROAD_EXPANSION_INTERVAL :: int where "ROAD_EXPANSION_INTERVAL = 30000"
definition ROAD_EXPANSION_RATE :: real where "ROAD_EXPANSION_RATE = 1.1"

definition BASE_GAME_SPEED :: real where "BASE_GAME_SPEED = 2"
definition MAX_GAME_SPEED :: real where "MAX_GAME_SPEED = 20"
definition SPEED_INCREMENT_PER_TICK :: real where "SPEED_INCREMENT_PER_TICK = 0.0005"

definition playerColors :: "string list" where
  "playerColors =
     [''#ff6b6b'', ''#4ecdc4'', ''#ffe66d'', ''#95e1d3'',
      ''#f38181'', ''#aa96da'', ''#fcbad3'', ''#a8d8ea'']"

definition getPlayerColor :: "nat \<Rightarrow> string" where
  "getPlayerColor index = playerColors ! (index mod length playerColors)"

subsection \<open>Data model\<close>

record player =
  name :: string
  x_pos :: real
  startX :: real
  worldY :: real
  startWorldY :: real
  distance :: real
  color :: string
  stunned :: bool
  stunnedUntil :: time
  finished :: bool
  finishTime :: "int option"
  position :: "nat option"
  gridPosition :: nat

record obstacle =
  obs_id :: nat
  obs_x :: real
  obs_worldY :: real
  obs_distance :: real

record room =
  members :: "(sid \<times> string) list"
  players :: "(sid \<times> player) list"
  obstacles :: "obstacle list"
  nextObstacleId :: nat
  lastSpawnWorldY :: real
  furthestWorldY :: real
  roadWidth :: real
  gameSpeed :: real
  lastExpansionTime :: time
  createdAt :: time
  creatorId :: sid
  raceState :: race_state
  raceStartTime :: "time option"
  countdownStartTime :: "time option"
  countdownValue :: int
  finishOrder :: "sid list"
  raceDistance :: int
  pausedAt :: "time option"

text \<open>The socket object, as far as the handlers read or write it.\<close>

record socket =
  sock_id :: sid
  roomCode :: "string option"
  userName :: "string option"

text \<open>\<open>null\<close> in arithmetic is \<open>0\<close>.\<close>

definition num :: "int option \<Rightarrow> int" where
  "num v = (case v of None \<Rightarrow> 0 | Some n \<Rightarrow> n)"

subsection \<open>Objects keyed by socket id\<close>

text \<open>\<open>obj[k] = v\<close>: an existing key keeps its place, a new key goes last.\<close>

fun obj_set :: "('k \<times> 'v) list \<Rightarrow> 'k \<Rightarrow> 'v \<Rightarrow> ('k \<times> 'v) list" where
  "obj_set [] k v = [(k, v)]"
| "obj_set ((k', v') # kvs) k v =
     (if k' = k then (k, v) # kvs else (k', v') # obj_set kvs k v)"

definition obj_get :: "('k \<times> 'v) list \<Rightarrow> 'k \<Rightarrow> 'v option" where
  "obj_get kvs k = map_of kvs k"

definition obj_delete :: "('k \<times> 'v) list \<Rightarrow> 'k \<Rightarrow> ('k \<times> 'v) list" where
  "obj_delete kvs k = filter (\<lambda>kv. fst kv \<noteq> k) kvs"

definition obj_values :: "('k \<times> 'v) list \<Rightarrow> 'v list" where
  "obj_values kvs = map snd kvs"

subsection \<open>Outbound events\<close>

datatype audience = to_sender | to_room | to_others

record joined_payload =
  j_roomCode :: string
  j_name :: string
  j_members :: "(sid \<times> string) list"
  j_playerId :: sid
  j_playerColor :: string
  j_isCreator :: bool
  j_spawnWorldY :: real
  j_raceState :: race_state
  j_raceDistance :: int
  j_canStart :: bool
  j_minPlayers :: nat
  j_playerCount :: nat

record lb_entry =
  lb_name :: string
  lb_distance :: real
  lb_finished :: bool
  lb_position :: "nat option"

record snapshot =
  gs_players :: "(sid \<times> player) list"
  gs_obstacles :: "obstacle list"
  gs_leaderboard :: "lb_entry list"
  gs_roadWidth :: real
  gs_gameSpeed :: real
  gs_raceState :: race_state
  gs_raceDistance :: int
  gs_raceTime :: int

datatype msg =
    Error string
  | Joined joined_payload
  | UserJoined string "(sid \<times> string) list" nat bool
  | UserLeft "string option" "(sid \<times> string) list"
  | RaceDistanceChanged int
  | RaceCountdown int string
  | RaceStarted int time
  | RacePaused string
  | RaceResumed string
  | PlayerFinished string nat int
  | RaceFinished "(nat \<times> string \<times> int option) list"
  | GameRestarted string race_state bool nat
  | GameState snapshot

type_synonym emit = "audience \<times> msg"

text \<open>An exception that leaves a handler.\<close>

datatype exn = TypeError

subsection \<open>Joining a room\<close>

definition new_room :: "sid \<Rightarrow> time \<Rightarrow> room" where
  "new_room creator now =
     \<lparr> members = [], players = [], obstacles = [], nextObstacleId = 0,
       lastSpawnWorldY = 0, furthestWorldY = 0,
       roadWidth = BASE_ROAD_WIDTH, gameSpeed = BASE_GAME_SPEED,
       lastExpansionTime = now, createdAt = now, creatorId = creator,
       raceState = WAITING, raceStartTime = None, countdownStartTime = None,
       countdownValue = 0, finishOrder = [], raceDistance = DEFAULT_RACE_DISTANCE,
       pausedAt = None \<rparr>"

definition new_player :: "string \<Rightarrow> nat \<Rightarrow> player" where
  "new_player nm playerIndex =
     (let gridRow = playerIndex div 2;
          gridCol = playerIndex mod 2;
          startX' = (if gridCol = 0 then 0.35 else 0.65);
          startWorldY' = real (gridRow * 60)
      in \<lparr> name = nm, x_pos = startX', startX = startX', worldY = startWorldY',
           startWorldY = startWorldY', distance = 0, color = getPlayerColor playerIndex,
           stunned = False, stunnedUntil = 0, finished = False, finishTime = None,
           position = None, gridPosition = playerIndex + 1 \<rparr>)"

text \<open>
  The part of \<open>join-room\<close> that runs on the room, once the room exists: the late-joiner
  check, the new member and its player, the two notifications.
\<close>

definition join_in_room :: "string \<Rightarrow> sid \<Rightarrow> string \<Rightarrow> room \<Rightarrow> room \<times> emit list" where
  "join_in_room rc s nm r =
     (if raceState r = RACING \<or> raceState r = COUNTDOWN \<or> raceState r = PAUSED
      then (r, [(to_sender, Error ''Race already in progress. Wait for it to finish.'')])
      else
        let members' = members r @ [(s, nm)];
            playerIndex = length members' - 1;
            p = new_player nm playerIndex;
            players' = obj_set (players r) s p;
            playerCount = length players';
            canStart = (playerCount \<ge> MIN_PLAYERS_TO_START);
            r' = r\<lparr>members := members', players := players'\<rparr>
        in (r',
            [(to_sender, Joined
                \<lparr> j_roomCode = rc, j_name = nm, j_members = members', j_playerId = s,
                  j_playerColor = color p, j_isCreator = (creatorId r' = s),
                  j_spawnWorldY = 0, j_raceState = raceState r',
                  j_raceDistance = raceDistance r', j_canStart = canStart,
                  j_minPlayers = MIN_PLAYERS_TO_START, j_playerCount = playerCount \<rparr>),
             (to_others, UserJoined nm members' playerCount canStart)]))"

text \<open>
  \<open>socket.on("join-room")\<close>. An empty (or missing) room code or name is the falsy
  case. The socket remembers the room code and the name before the late-joiner check.
\<close>

definition on_join_room ::
  "socket \<Rightarrow> string \<Rightarrow> string \<Rightarrow> time \<Rightarrow> (string \<rightharpoonup> room)
     \<Rightarrow> socket \<times> (string \<rightharpoonup> room) \<times> emit list" where
  "on_join_room sock rc nm now rooms =
     (if rc = [] \<or> nm = []
      then (sock, rooms, [(to_sender, Error ''Room code and name are required'')])
      else
        let sock' = sock\<lparr>roomCode := Some rc, userName := Some nm\<rparr>;
            r0 = (case rooms rc of None \<Rightarrow> new_room (sock_id sock) now | Some r \<Rightarrow> r);
            (r', out) = join_in_room rc (sock_id sock) nm r0
        in (sock', rooms(rc \<mapsto> r'), out))"

subsection \<open>Host commands\<close>

text \<open>
  Every other handler starts with
  \<^verbatim>\<open>if (!roomCode || !rooms[roomCode]) return;\<close> (or the same test as a guard)
  and then works on \<open>rooms[roomCode]\<close>.
\<close>

definition with_room ::
  "socket \<Rightarrow> (string \<rightharpoonup> room) \<Rightarrow> (room \<Rightarrow> room \<times> emit list)
     \<Rightarrow> (string \<rightharpoonup> room) \<times> emit list" where
  "with_room sock rooms f =
     (case roomCode sock of
        None \<Rightarrow> (rooms, [])
      | Some rc \<Rightarrow>
          if rc = [] then (rooms, [])
          else (case rooms rc of
                  None \<Rightarrow> (rooms, [])
                | Some r \<Rightarrow> (let (r', out) = f r in (rooms(rc \<mapsto> r'), out))))"

text \<open>
  \<open>set-race-distance\<close>. The argument is \<open>parseInt(data.distance)\<close>, \<open>None\<close> for
  \<open>NaN\<close>; \<open>NaN\<close> and \<open>0\<close> are falsy and give the default.
\<close>

definition set_race_distance :: "sid \<Rightarrow> int option \<Rightarrow> room \<Rightarrow> room \<times> emit list" where
  "set_race_distance s parsed r =
     (if creatorId r \<noteq> s
      then (r, [(to_sender, Error ''Only the room creator can set race distance'')])
      else if raceState r \<noteq> WAITING
      then (r, [(to_sender, Error ''Can only set distance before race starts'')])
      else
        let d = (case parsed of None \<Rightarrow> DEFAULT_RACE_DISTANCE
                 | Some n \<Rightarrow> if n = 0 then DEFAULT_RACE_DISTANCE else n);
            r' = r\<lparr>raceDistance := max 100 (min 10000 d)\<rparr>
        in (r', [(to_room, RaceDistanceChanged (raceDistance r'))]))"

definition start_race :: "sid \<Rightarrow> time \<Rightarrow> room \<Rightarrow> room \<times> emit list" where
  "start_race s now r =
     (if creatorId r \<noteq> s
      then (r, [(to_sender, Error ''Only the room creator can start the race'')])
      else if length (players r) < MIN_PLAYERS_TO_START
      then (r, [(to_sender, Error ''Need at least 2 players to start'')])
      else if raceState r \<noteq> WAITING
      then (r, [(to_sender, Error ''Race already started'')])
      else (r\<lparr>raceState := COUNTDOWN, countdownStartTime := Some now,
              countdownValue := COUNTDOWN_SECONDS\<rparr>,
            [(to_room, RaceCountdown COUNTDOWN_SECONDS ''Race starting!'')]))"

text \<open>
  \<open>toggle-pause\<close>. \<open>room.raceStartTime += pauseDuration\<close> on a \<open>null\<close> start
  time would give the number \<open>pauseDuration\<close>.
\<close>

definition toggle_pause :: "sid \<Rightarrow> time \<Rightarrow> room \<Rightarrow> room \<times> emit list" where
  "toggle_pause s now r =
     (if creatorId r \<noteq> s
      then (r, [(to_sender, Error ''Only the room creator can pause the race'')])
      else if raceState r = RACING
      then (r\<lparr>raceState := PAUSED, pausedAt := Some now\<rparr>,
            [(to_room, RacePaused ''Race paused by host'')])
      else if raceState r = PAUSED
      then
        (let pauseDuration = now - num (pausedAt r)
         in (r\<lparr>raceStartTime := Some (num (raceStartTime r) + pauseDuration),
                raceState := RACING, pausedAt := None\<rparr>,
             [(to_room, RaceResumed ''Race resumed!'')]))
      else (r, []))"

text \<open>\<open>restart-game\<close>: the loop over \<open>room.players\<close> with its running index.\<close>

definition reset_player :: "nat \<Rightarrow> player \<Rightarrow> player" where
  "reset_player playerIndex p =
     (let gridRow = playerIndex div 2;
          gridCol = playerIndex mod 2;
          startX' = (if gridCol = 0 then 0.35 else 0.65);
          startWorldY' = real (gridRow * 60)
      in p\<lparr>worldY := startWorldY', startWorldY := startWorldY', distance := 0,
           x_pos := startX', startX := startX', stunned := False, stunnedUntil := 0,
           finished := False, finishTime := None, position := None,
           gridPosition := playerIndex + 1\<rparr>)"

fun reset_players :: "nat \<Rightarrow> (sid \<times> player) list \<Rightarrow> (sid \<times> player) list" where
  "reset_players playerIndex [] = []"
| "reset_players playerIndex ((k, p) # ps) =
     (k, reset_player playerIndex p) # reset_players (Suc playerIndex) ps"

definition restart_game :: "sid \<Rightarrow> time \<Rightarrow> room \<Rightarrow> room \<times> emit list" where
  "restart_game s now r =
     (if creatorId r \<noteq> s
      then (r, [(to_sender, Error ''Only the room creator can restart the game'')])
      else
        let r' = r\<lparr>players := reset_players 0 (players r),
                   obstacles := [], nextObstacleId := 0, lastSpawnWorldY := 0,
                   furthestWorldY := 0,
                   roadWidth := BASE_ROAD_WIDTH, gameSpeed := BASE_GAME_SPEED,
                   lastExpansionTime := now,
                   raceState := WAITING, raceStartTime := None,
                   countdownStartTime := None, countdownValue := 0, finishOrder := []\<rparr>;
            playerCount = length (players r');
            canStart = (playerCount \<ge> MIN_PLAYERS_TO_START)
        in (r', [(to_room, GameRestarted ''Game restarted by host!'' (raceState r')
                             canStart playerCount)]))"

definition on_set_race_distance ::
  "socket \<Rightarrow> int option \<Rightarrow> (string \<rightharpoonup> room) \<Rightarrow> (string \<rightharpoonup> room) \<times> emit list" where
  "on_set_race_distance sock parsed rooms =
     with_room sock rooms (set_race_distance (sock_id sock) parsed)"

definition on_start_race ::
  "socket \<Rightarrow> time \<Rightarrow> (string \<rightharpoonup> room) \<Rightarrow> (string \<rightharpoonup> room) \<times> emit list" where
  "on_start_race sock now rooms = with_room sock rooms (start_race (sock_id sock) now)"

definition on_toggle_pause ::
  "socket \<Rightarrow> time \<Rightarrow> (string \<rightharpoonup> room) \<Rightarrow> (string \<rightharpoonup> room) \<times> emit list" where
  "on_toggle_pause sock now rooms = with_room sock rooms (toggle_pause (sock_id sock) now)"

definition on_restart_game ::
  "socket \<Rightarrow> time \<Rightarrow> (string \<rightharpoonup> room) \<Rightarrow> (string \<rightharpoonup> room) \<times> emit list" where
  "on_restart_game sock now rooms = with_room sock rooms (restart_game (sock_id sock) now)"

subsection \<open>Player events\<close>

record update_data =
  ud_x :: real
  ud_worldY :: "real option"
  ud_distance :: real
  ud_stunned :: bool

text \<open>
  The results of \<open>race-finished\<close>: \<open>room.players[id].name\<close> for every id of
  \<open>finishOrder\<close>. An id whose player has left the room reads a property of
  \<open>undefined\<close>: the \<open>TypeError\<close> is \<open>None\<close> here.
\<close>

fun race_results ::
  "(sid \<times> player) list \<Rightarrow> nat \<Rightarrow> sid list \<Rightarrow> (nat \<times> string \<times> int option) list option" where
  "race_results ps index [] = Some []"
| "race_results ps index (k # ks) =
     (case obj_get ps k of
        None \<Rightarrow> None
      | Some p \<Rightarrow>
          (case race_results ps (Suc index) ks of
             None \<Rightarrow> None
           | Some rs \<Rightarrow> Some ((index + 1, name p, finishTime p) # rs)))"

text \<open>
  \<open>player-update\<close> on the room. The third component is the exception that leaves the
  handler, if any; the room and the events are what the handler did before it.
\<close>

definition player_update ::
  "sid \<Rightarrow> update_data \<Rightarrow> time \<Rightarrow> room \<Rightarrow> room \<times> emit list \<times> exn option" where
  "player_update s d now r =
     (case obj_get (players r) s of
        None \<Rightarrow> (r, [], None)
      | Some p0 \<Rightarrow>
          if raceState r = RACING \<and> \<not> finished p0 then
            let p1 = p0\<lparr>x_pos := ud_x d,
                       worldY := (case ud_worldY d of Some wy \<Rightarrow> wy | None \<Rightarrow> worldY p0),
                       distance := ud_distance d,
                       stunned := ud_stunned d\<rparr>
            in if distance p1 \<ge> real_of_int (raceDistance r) \<and> \<not> finished p1 then
                 let finishOrder' = finishOrder r @ [s];
                     p2 = p1\<lparr>finished := True,
                             finishTime := Some (now - num (raceStartTime r)),
                             position := Some (length finishOrder')\<rparr>;
                     r2 = r\<lparr>players := obj_set (players r) s p2,
                             finishOrder := finishOrder'\<rparr>;
                     out2 = [(to_room, PlayerFinished (name p2) (length finishOrder')
                                         (now - num (raceStartTime r)))];
                     allFinished = list_all finished (obj_values (players r2))
                 in if allFinished then
                      let r3 = r2\<lparr>raceState := FINISHED\<rparr>
                      in (case race_results (players r3) 0 (finishOrder r3) of
                            None \<Rightarrow> (r3, out2, Some TypeError)
                          | Some results \<Rightarrow>
                              (r3, out2 @ [(to_room, RaceFinished results)], None))
                    else (r2, out2, None)
               else (r\<lparr>players := obj_set (players r) s p1\<rparr>, [], None)
          else (r, [], None))"

definition collision :: "sid \<Rightarrow> time \<Rightarrow> room \<Rightarrow> room \<times> emit list" where
  "collision s now r =
     (case obj_get (players r) s of
        None \<Rightarrow> (r, [])
      | Some p \<Rightarrow>
          (r\<lparr>players := obj_set (players r) s
                 (p\<lparr>stunned := True, stunnedUntil := now + 2000\<rparr>)\<rparr>, []))"

text \<open>
  \<open>disconnect\<close> on the room; the handler then deletes the room from the table when no
  member is left.
\<close>

definition disconnect :: "sid \<Rightarrow> string option \<Rightarrow> room \<Rightarrow> room \<times> emit list" where
  "disconnect s uname r =
     (let members' = filter (\<lambda>user. fst user \<noteq> s) (members r);
          r' = r\<lparr>members := members', players := obj_delete (players r) s\<rparr>
      in (r', [(to_room, UserLeft uname members')]))"

definition on_player_update ::
  "socket \<Rightarrow> update_data \<Rightarrow> time \<Rightarrow> (string \<rightharpoonup> room)
     \<Rightarrow> (string \<rightharpoonup> room) \<times> emit list \<times> exn option" where
  "on_player_update sock d now rooms =
     (case roomCode sock of
        None \<Rightarrow> (rooms, [], None)
      | Some rc \<Rightarrow>
          if rc = [] then (rooms, [], None)
          else (case rooms rc of
                  None \<Rightarrow> (rooms, [], None)
                | Some r \<Rightarrow>
                    (let (r', out, e) = player_update (sock_id sock) d now r
                     in (rooms(rc \<mapsto> r'), out, e))))"

definition on_collision ::
  "socket \<Rightarrow> time \<Rightarrow> (string \<rightharpoonup> room) \<Rightarrow> (string \<rightharpoonup> room) \<times> emit list" where
  "on_collision sock now rooms = with_room sock rooms (collision (sock_id sock) now)"

definition on_disconnect ::
  "socket \<Rightarrow> (string \<rightharpoonup> room) \<Rightarrow> (string \<rightharpoonup> room) \<times> emit list" where
  "on_disconnect sock rooms =
     (case roomCode sock of
        None \<Rightarrow> (rooms, [])
      | Some rc \<Rightarrow>
          if rc = [] then (rooms, [])
          else (case rooms rc of
                  None \<Rightarrow> (rooms, [])
                | Some r \<Rightarrow>
                    (let (r', out) = disconnect (sock_id sock) (userName sock) r
                     in if members r' = [] then (rooms(rc := None), out)
                        else (rooms(rc \<mapsto> r'), out))))"

subsection \<open>The broadcast loop\<close>

text \<open>The loop runs every \<open>1000 / TICK_RATE\<close> milliseconds.\<close>

definition TICK_RATE :: real where
  "TICK_RATE = 30"

definition tick_interval :: real where
  "tick_interval = 1000 / TICK_RATE"

text \<open>\<open>newCountdown.toString()\<close>, used for positive values only.\<close>

fun string_of_nat :: "nat \<Rightarrow> string" where
  "string_of_nat n =
     (if n < 10 then [char_of (48 + n)]
      else string_of_nat (n div 10) @ [char_of (48 + n mod 10)])"

declare string_of_nat.simps [simp del]

text \<open>The countdown block of the tick.\<close>

definition tick_countdown :: "time \<Rightarrow> room \<Rightarrow> room \<times> emit list" where
  "tick_countdown now r =
     (if raceState r = COUNTDOWN then
        let elapsed = now - num (countdownStartTime r);
            newCountdown = COUNTDOWN_SECONDS - elapsed div 1000;
            (r1, out1) =
              (if newCountdown \<noteq> countdownValue r \<and> newCountdown \<ge> 0
               then (r\<lparr>countdownValue := newCountdown\<rparr>,
                     [(to_room, RaceCountdown newCountdown
                         (if newCountdown > 0 then string_of_nat (nat newCountdown)
                          else ''GO!''))])
               else (r, []));
            (r2, out2) =
              (if elapsed \<ge> COUNTDOWN_SECONDS * 1000
               then (r1\<lparr>raceState := RACING, raceStartTime := Some now,
                        gameSpeed := BASE_GAME_SPEED\<rparr>,
                     [(to_room, RaceStarted (raceDistance r1) now)])
               else (r1, []))
        in (r2, out1 @ out2)
      else (r, []))"

text \<open>The first racing block: stun expiry and the difficulty controller.\<close>

definition expire_stun :: "time \<Rightarrow> player \<Rightarrow> player" where
  "expire_stun now p =
     (if stunned p \<and> now \<ge> stunnedUntil p then p\<lparr>stunned := False\<rparr> else p)"

definition tick_racing :: "time \<Rightarrow> room \<Rightarrow> room" where
  "tick_racing now r =
     (if raceState r = RACING then
        let r1 = r\<lparr>players := map (\<lambda>(k, p). (k, expire_stun now p)) (players r)\<rparr>;
            r2 = (if gameSpeed r1 < MAX_GAME_SPEED
                  then r1\<lparr>gameSpeed :=
                            min (gameSpeed r1 + SPEED_INCREMENT_PER_TICK) MAX_GAME_SPEED\<rparr>
                  else r1);
            r3 = (if now - lastExpansionTime r2 \<ge> ROAD_EXPANSION_INTERVAL
                  then r2\<lparr>lastExpansionTime := now,
                          roadWidth := min (roadWidth r2 * ROAD_EXPANSION_RATE) MAX_ROAD_WIDTH\<rparr>
                  else r2)
        in r3
      else r)"

text \<open>
  The scan for the leader and the trailer: \<open>(minWorldY, maxWorldY, hasPlayers)\<close>,
  starting from \<open>(0, 0, false)\<close>.
\<close>

fun world_extent_loop ::
  "(sid \<times> player) list \<Rightarrow> real \<times> real \<times> bool \<Rightarrow> real \<times> real \<times> bool" where
  "world_extent_loop [] acc = acc"
| "world_extent_loop ((k, p) # ps) (minWorldY, maxWorldY, hasPlayers) =
     world_extent_loop ps
       (let wy = worldY p
        in if \<not> hasPlayers then (wy, wy, True)
           else ((if wy < minWorldY then wy else minWorldY),
                 (if wy > maxWorldY then wy else maxWorldY), True))"

definition world_extent :: "(sid \<times> player) list \<Rightarrow> real \<times> real \<times> bool" where
  "world_extent ps = world_extent_loop ps (0, 0, False)"

definition spawnAheadPixels :: real where
  "spawnAheadPixels = SPAWN_AHEAD_DISTANCE * PIXELS_PER_METER"

definition spawnIntervalPixels :: real where
  "spawnIntervalPixels = OBSTACLE_SPAWN_INTERVAL * PIXELS_PER_METER"

definition despawnBufferPixels :: real where
  "despawnBufferPixels = OBSTACLE_DESPAWN_DISTANCE * PIXELS_PER_METER"

text \<open>The zone-weighted lateral position, from the two random draws.\<close>

definition obstacleX :: "real \<Rightarrow> real \<Rightarrow> real" where
  "obstacleX zoneRoll u =
     (if zoneRoll < 0.25 then u * 0.23 + 0.02
      else if zoneRoll < 0.5 then u * 0.23 + 0.75
      else u * 0.5 + 0.25)"

text \<open>
  The spawn loop, on (number of random draws so far, \<open>lastSpawnWorldY\<close>,
  \<open>nextObstacleId\<close>, \<open>obstacles\<close>).
\<close>

function spawn_loop ::
  "(nat \<Rightarrow> real) \<Rightarrow> real \<Rightarrow> nat \<times> real \<times> nat \<times> obstacle list
     \<Rightarrow> nat \<times> real \<times> nat \<times> obstacle list" where
  "spawn_loop rnd spawnThreshold (k, lastSpawn, nextId, obs) =
     (if lastSpawn > spawnThreshold then
        let lastSpawn' = lastSpawn - spawnIntervalPixels;
            newObstacle =
              \<lparr> obs_id = nextId, obs_x = obstacleX (rnd k) (rnd (k + 1)),
                obs_worldY = lastSpawn',
                obs_distance = \<bar>lastSpawn'\<bar> / PIXELS_PER_METER \<rparr>
        in spawn_loop rnd spawnThreshold (k + 2, lastSpawn', nextId + 1, obs @ [newObstacle])
      else (k, lastSpawn, nextId, obs))"
  by pat_completeness auto

termination
proof (relation "measure (\<lambda>(rnd, thr, k, lastSpawn, nextId, obs).
                    nat \<lceil>(lastSpawn - thr) / 100\<rceil>)")
  show "wf (measure (\<lambda>(rnd, thr, k, lastSpawn, nextId, obs).
                    nat \<lceil>(lastSpawn - thr) / 100\<rceil>))"
    by simp
next
  fix rnd :: "nat \<Rightarrow> real" and spawnThreshold lastSpawn lastSpawn' :: real
    and k nextId :: nat and obs :: "obstacle list" and newObstacle :: obstacle
  assume gt: "spawnThreshold < lastSpawn"
    and l': "lastSpawn' = lastSpawn - spawnIntervalPixels"
  have step: "(lastSpawn' - spawnThreshold) / 100 = (lastSpawn - spawnThreshold) / 100 - 1"
    using l'
    by (simp add: spawnIntervalPixels_def OBSTACLE_SPAWN_INTERVAL_def PIXELS_PER_METER_def
        field_simps)
  have pos: "0 < \<lceil>(lastSpawn - spawnThreshold) / 100\<rceil>"
    using gt by (simp add: ceiling_less_iff)
  have "\<lceil>(lastSpawn' - spawnThreshold) / 100\<rceil> = \<lceil>(lastSpawn - spawnThreshold) / 100\<rceil> - 1"
    unfolding step by simp
  with pos show "((rnd, spawnThreshold, k + 2, lastSpawn', nextId + 1, obs @ [newObstacle]),
                  (rnd, spawnThreshold, k, lastSpawn, nextId, obs))
                 \<in> measure (\<lambda>(rnd, thr, k, lastSpawn, nextId, obs).
                      nat \<lceil>(lastSpawn - thr) / 100\<rceil>)"
    by simp
qed

declare spawn_loop.simps [simp del]

text \<open>The second racing block: spawn ahead of the leader, despawn behind the trailer.\<close>

definition tick_obstacles :: "(nat \<Rightarrow> real) \<Rightarrow> real \<times> real \<times> bool \<Rightarrow> room \<Rightarrow> room" where
  "tick_obstacles rnd extent r =
     (case extent of (minWorldY, maxWorldY, hasPlayers) \<Rightarrow>
        if raceState r = RACING then
          let cursor = (if lastSpawnWorldY r = 0 \<and> hasPlayers
                        then minWorldY - spawnIntervalPixels else lastSpawnWorldY r);
              spawnThreshold = minWorldY - spawnAheadPixels;
              (k, lastSpawn, nextId, obs) =
                 spawn_loop rnd spawnThreshold (0, cursor, nextObstacleId r, obstacles r)
          in r\<lparr>lastSpawnWorldY := lastSpawn, nextObstacleId := nextId,
               obstacles := filter (\<lambda>ob. obs_worldY ob < maxWorldY + despawnBufferPixels) obs\<rparr>
        else r)"

text \<open>
  The leaderboard: the comparator of the source, a stable sort by it, the first five.
\<close>

definition lb_of_player :: "player \<Rightarrow> lb_entry" where
  "lb_of_player p =
     \<lparr> lb_name = name p, lb_distance = distance p, lb_finished = finished p,
       lb_position = position p \<rparr>"

definition pos_num :: "nat option \<Rightarrow> real" where
  "pos_num v = (case v of None \<Rightarrow> 0 | Some n \<Rightarrow> real n)"

definition lb_compare :: "lb_entry \<Rightarrow> lb_entry \<Rightarrow> real" where
  "lb_compare a b =
     (if lb_finished a \<and> \<not> lb_finished b then - 1
      else if \<not> lb_finished a \<and> lb_finished b then 1
      else if lb_finished a \<and> lb_finished b
      then pos_num (lb_position a) - pos_num (lb_position b)
      else lb_distance b - lb_distance a)"

fun lb_insert :: "lb_entry \<Rightarrow> lb_entry list \<Rightarrow> lb_entry list" where
  "lb_insert a [] = [a]"
| "lb_insert a (b # bs) = (if lb_compare a b \<le> 0 then a # b # bs else b # lb_insert a bs)"

definition lb_sort :: "lb_entry list \<Rightarrow> lb_entry list" where
  "lb_sort es = foldr lb_insert es []"

definition leaderboard :: "room \<Rightarrow> lb_entry list" where
  "leaderboard r = take 5 (lb_sort (map (\<lambda>(k, p). lb_of_player p) (players r)))"

text \<open>The \<open>game-state\<close> message. A start time is truthy when it is neither \<open>null\<close> nor \<open>0\<close>.\<close>

definition raceTime :: "time \<Rightarrow> room \<Rightarrow> int" where
  "raceTime now r =
     (case raceStartTime r of
        None \<Rightarrow> 0
      | Some t \<Rightarrow> if t \<noteq> 0 then now - t else 0)"

definition game_state :: "time \<Rightarrow> room \<Rightarrow> snapshot" where
  "game_state now r =
     \<lparr> gs_players = players r, gs_obstacles = obstacles r, gs_leaderboard = leaderboard r,
       gs_roadWidth = roadWidth r,
       gs_gameSpeed = (if raceState r = RACING then gameSpeed r else 0),
       gs_raceState = raceState r, gs_raceDistance = raceDistance r,
       gs_raceTime = raceTime now r \<rparr>"

text \<open>One iteration of the loop body, for a room that has members.\<close>

definition tick_room :: "time \<Rightarrow> (nat \<Rightarrow> real) \<Rightarrow> room \<Rightarrow> room \<times> emit list" where
  "tick_room now rnd r =
     (let (r1, out) = tick_countdown now r;
          r2 = tick_racing now r1;
          r3 = tick_obstacles rnd (world_extent (players r2)) r2
      in (r3, out @ [(to_room, GameState (game_state now r3))]))"

text \<open>
  The whole tick. The rooms do not read each other, so each room gets its own random
  sequence, and the events come back per room code.
\<close>

definition tick ::
  "time \<Rightarrow> (string \<Rightarrow> nat \<Rightarrow> real) \<Rightarrow> (string \<rightharpoonup> room)
     \<Rightarrow> (string \<rightharpoonup> room) \<times> (string \<Rightarrow> emit list)" where
  "tick now rnd rooms =
     ((\<lambda>rc. case rooms rc of
               None \<Rightarrow> None
             | Some r \<Rightarrow> if length (members r) > 0
                         then Some (fst (tick_room now (rnd rc) r)) else Some r),
      (\<lambda>rc. case rooms rc of
               None \<Rightarrow> []
             | Some r \<Rightarrow> if length (members r) > 0
                         then snd (tick_room now (rnd rc) r) else []))"

subsection \<open>Histories of one room\<close>

text \<open>
  What can happen to a room once it exists: a handler run by some socket whose
  \<open>roomCode\<close> is the room's, at some time, or a tick.
\<close>

datatype event =
    Ev_join sid string
  | Ev_set_race_distance sid "int option"
  | Ev_start_race sid time
  | Ev_toggle_pause sid time
  | Ev_player_update sid update_data time
  | Ev_restart_game sid time
  | Ev_collision sid time
  | Ev_disconnect sid "string option"
  | Ev_tick time "nat \<Rightarrow> real"

fun room_step :: "string \<Rightarrow> event \<Rightarrow> room \<Rightarrow> room \<times> emit list" where
  "room_step rc (Ev_join s nm) r = join_in_room rc s nm r"
| "room_step rc (Ev_set_race_distance s parsed) r = set_race_distance s parsed r"
| "room_step rc (Ev_start_race s now) r = start_race s now r"
| "room_step rc (Ev_toggle_pause s now) r = toggle_pause s now r"
| "room_step rc (Ev_player_update s d now) r =
     (case player_update s d now r of (r', out, e) \<Rightarrow> (r', out))"
| "room_step rc (Ev_restart_game s now) r = restart_game s now r"
| "room_step rc (Ev_collision s now) r = collision s now r"
| "room_step rc (Ev_disconnect s uname) r = disconnect s uname r"
| "room_step rc (Ev_tick now rnd) r = tick_room now rnd r"

fun run :: "string \<Rightarrow> event list \<Rightarrow> room \<Rightarrow> room \<times> emit list" where
  "run rc [] r = (r, [])"
| "run rc (e # es) r =
     (case room_step rc e r of (r1, out1) \<Rightarrow>
        (case run rc es r1 of (r2, out2) \<Rightarrow> (r2, out1 @ out2)))"

inductive reachable :: "room \<Rightarrow> bool" where
  fresh: "reachable (new_room creator now)"
| step: "reachable r \<Longrightarrow> reachable (fst (room_step rc e r))"

text \<open>
  A history keeps going after \<open>player-update\<close> has thrown, with the room as the handler
  left it: an over-approximation of what the process does next.
\<close>

section \<open>Observations\<close>

text \<open>What the statements below read off a room or off the emitted events.\<close>

text \<open>The stun fields of a player, as every \<open>game-state\<close> message shows them.\<close>

definition stun_state :: "sid \<Rightarrow> room \<Rightarrow> (bool \<times> time) option" where
  "stun_state s r =
     (case obj_get (players r) s of
        None \<Rightarrow> None
      | Some p \<Rightarrow> Some (stunned p, stunnedUntil p))"

text \<open>The \<open>raceTime\<close> of the last \<open>game-state\<close> message among the events.\<close>

fun reported_raceTime :: "emit list \<Rightarrow> int option" where
  "reported_raceTime [] = None"
| "reported_raceTime ((a, m) # out) =
     (case reported_raceTime out of
        Some t \<Rightarrow> Some t
      | None \<Rightarrow> (case m of GameState snap \<Rightarrow> Some (gs_raceTime snap) | _ \<Rightarrow> None))"

text \<open>The positions announced by the \<open>player-finished\<close> messages, in order.\<close>

fun finish_positions :: "emit list \<Rightarrow> nat list" where
  "finish_positions [] = []"
| "finish_positions ((a, m) # out) =
     (case m of
        PlayerFinished nm pos t \<Rightarrow> pos # finish_positions out
      | _ \<Rightarrow> finish_positions out)"

text \<open>A \<open>restart-game\<close> sent by the creator \<open>h\<close>: the event that ends a race.\<close>

fun host_restart :: "sid \<Rightarrow> event \<Rightarrow> bool" where
  "host_restart h (Ev_restart_game s now) = (s = h)"
| "host_restart h e = False"

fun is_join :: "event \<Rightarrow> bool" where
  "is_join (Ev_join s nm) = True"
| "is_join e = False"

text \<open>The invariant of the data model: a finished room has only finished players.\<close>

definition finished_inv :: "room \<Rightarrow> bool" where
  "finished_inv r = (raceState r = FINISHED \<longrightarrow> list_all finished (obj_values (players r)))"

text \<open>The bounds that the difficulty controller keeps.\<close>

definition difficulty_ok :: "room \<Rightarrow> bool" where
  "difficulty_ok r =
     (BASE_GAME_SPEED \<le> gameSpeed r \<and> gameSpeed r \<le> MAX_GAME_SPEED
      \<and> BASE_ROAD_WIDTH \<le> roadWidth r \<and> roadWidth r \<le> MAX_ROAD_WIDTH)"

text \<open>Leader and trailer, as the tick computes them.\<close>

definition leaderWorldY :: "room \<Rightarrow> real" where
  "leaderWorldY r = fst (world_extent (players r))"

definition trailerWorldY :: "room \<Rightarrow> real" where
  "trailerWorldY r = fst (snd (world_extent (players r)))"

text \<open>The obstacles that the despawn rule would drop.\<close>

definition stale_obstacles :: "room \<Rightarrow> obstacle list" where
  "stale_obstacles r =
     filter (\<lambda>ob. \<not> obs_worldY ob < trailerWorldY r + despawnBufferPixels) (obstacles r)"

text \<open>The obstacles ahead of the leader by at most the spawn-ahead distance.\<close>

definition obstacles_ahead :: "room \<Rightarrow> obstacle list" where
  "obstacles_ahead r =
     filter (\<lambda>ob. leaderWorldY r - spawnAheadPixels \<le> obs_worldY ob
                 \<and> obs_worldY ob \<le> leaderWorldY r) (obstacles r)"

text \<open>A run of ticks, as events.\<close>

fun tick_events :: "(time \<times> (nat \<Rightarrow> real)) list \<Rightarrow> event list" where
  "tick_events [] = []"
| "tick_events ((t, rnd) # ts) = Ev_tick t rnd # tick_events ts"

text \<open>
  The cursor is not yet initialised, or the leader is less than the spawn-ahead distance
  plus one spawn interval behind it.
\<close>

definition cursor_near :: "room \<Rightarrow> bool" where
  "cursor_near r =
     (lastSpawnWorldY r = 0
      \<or> leaderWorldY r < lastSpawnWorldY r + spawnAheadPixels + spawnIntervalPixels)"

text \<open>An initialised cursor stands on an obstacle, with another one spawn interval behind it.\<close>

definition cursor_laid :: "room \<Rightarrow> bool" where
  "cursor_laid r =
     (lastSpawnWorldY r = 0
      \<or> list_ex (\<lambda>ob. obs_worldY ob = lastSpawnWorldY r) (obstacles r)
        \<and> list_ex (\<lambda>ob. obs_worldY ob = lastSpawnWorldY r + spawnIntervalPixels) (obstacles r))"

text \<open>A history in which no event moves the leader back.\<close>

fun no_retreat :: "string \<Rightarrow> event list \<Rightarrow> room \<Rightarrow> bool" where
  "no_retreat rc [] r = True"
| "no_retreat rc (e # es) r =
     (leaderWorldY (fst (room_step rc e r)) \<le> leaderWorldY r
      \<and> no_retreat rc es (fst (room_step rc e r)))"

section \<open>Example data\<close>

definition rnd0 :: "nat \<Rightarrow> real" where
  "rnd0 k = 0.5"

text \<open>Two players in the lobby; the creator starts the countdown; the tick after three
  seconds starts the race.\<close>

definition lobby2 :: room where
  "lobby2 =
     fst (run ''ABCD'' [Ev_join ''a'' ''Al'', Ev_join ''b'' ''Bo''] (new_room ''a'' 0))"

definition countdown2 :: room where
  "countdown2 = fst (start_race ''a'' 1000 lobby2)"

definition racing2 :: room where
  "racing2 = fst (tick_room 4000 rnd0 countdown2)"

text \<open>Both players cross the line, far ahead of the five obstacles of the first tick.\<close>

definition crossing :: update_data where
  "crossing = \<lparr> ud_x = 0.5, ud_worldY = Some (- 2000), ud_distance = 1000,
                ud_stunned = False \<rparr>"

definition finished2 :: room where
  "finished2 =
     fst (run ''ABCD'' [Ev_player_update ''a'' crossing 9000,
                        Ev_player_update ''b'' crossing 9500] racing2)"

text \<open>
  The same countdown room with a speed that is not the base speed. No history reaches
  it; it shows what the countdown block writes.
\<close>

definition fast_countdown :: room where
  "fast_countdown = countdown2\<lparr>gameSpeed := 7\<rparr>"

text \<open>The whole race of the two players, from the lobby.\<close>

definition race2 :: "event list" where
  "race2 = [Ev_start_race ''a'' 1000, Ev_tick 4000 rnd0,
            Ev_player_update ''a'' crossing 9000, Ev_player_update ''b'' crossing 9500]"

text \<open>Both players report a position far ahead, a tick runs, and both report the start
  line again.\<close>

definition upd_ahead :: update_data where
  "upd_ahead = \<lparr> ud_x = 0.5, ud_worldY = Some (- 1000), ud_distance = 500,
             ud_stunned = False \<rparr>"

definition upd_back :: update_data where
  "upd_back = \<lparr> ud_x = 0.5, ud_worldY = Some 0, ud_distance = 500, ud_stunned = False \<rparr>"

definition went_ahead :: room where
  "went_ahead =
     fst (run ''ABCD'' [Ev_player_update ''a'' upd_ahead 5000, Ev_player_update ''b'' upd_ahead 5000,
                        Ev_tick 5033 rnd0] racing2)"

definition back_at_start :: room where
  "back_at_start =
     fst (run ''ABCD'' [Ev_player_update ''a'' upd_back 6000,
                        Ev_player_update ''b'' upd_back 6000] went_ahead)"

definition came_back :: room where
  "came_back = fst (tick_room 6033 rnd0 back_at_start)"

text \<open>Two sockets of room \<open>ABCD\<close> and a table that holds the fresh room.\<close>

definition sock_a :: socket where
  "sock_a = \<lparr> sock_id = ''a'', roomCode = Some ''ABCD'', userName = Some ''Al'' \<rparr>"

definition sock_b :: socket where
  "sock_b = \<lparr> sock_id = ''b'', roomCode = Some ''ABCD'', userName = Some ''Bo'' \<rparr>"

definition rooms0 :: "string \<rightharpoonup> room" where
  "rooms0 = [''ABCD'' \<mapsto> new_room ''a'' 0]"

section \<open>Properties\<close>

lemmas consts_defs =
  MIN_PLAYERS_TO_START_def DEFAULT_RACE_DISTANCE_def COUNTDOWN_SECONDS_def
  OBSTACLE_SPAWN_INTERVAL_def OBSTACLE_DESPAWN_DISTANCE_def SPAWN_AHEAD_DISTANCE_def
  PIXELS_PER_METER_def BASE_ROAD_WIDTH_def MAX_ROAD_WIDTH_def ROAD_EXPANSION_INTERVAL_def
  ROAD_EXPANSION_RATE_def BASE_GAME_SPEED_def MAX_GAME_SPEED_def
  SPEED_INCREMENT_PER_TICK_def

subsection \<open>Objects\<close>

lemma obj_get_obj_set_same [simp]: "obj_get (obj_set kvs k v) k = Some v"
  by (induction kvs) (auto simp: obj_get_def)

lemma obj_get_obj_set_other [simp]:
  "k' \<noteq> k \<Longrightarrow> obj_get (obj_set kvs k v) k' = obj_get kvs k'"
  by (induction kvs) (auto simp: obj_get_def)

lemma obj_set_twice [simp]: "obj_set (obj_set kvs k v) k w = obj_set kvs k w"
  by (induction kvs) auto

lemma with_room_same:
  assumes "roomCode sock = Some rc" "rc \<noteq> []" "rooms rc = Some r" "f r = (r, out)"
  shows "with_room sock rooms f = (rooms, out)"
  using assms by (simp add: with_room_def map_upd_triv)

subsection \<open>The example histories, evaluated\<close>

lemmas eval_defs =
  consts_defs new_room_def new_player_def join_in_room_def getPlayerColor_def playerColors_def
  start_race_def toggle_pause_def restart_game_def reset_player_def set_race_distance_def
  player_update_def collision_def disconnect_def obj_get_def obj_delete_def obj_values_def
  tick_room_def tick_countdown_def tick_racing_def tick_obstacles_def expire_stun_def
  world_extent_def spawnAheadPixels_def spawnIntervalPixels_def despawnBufferPixels_def
  obstacleX_def game_state_def raceTime_def leaderboard_def lb_sort_def lb_compare_def
  lb_of_player_def pos_num_def num_def Let_def spawn_loop.simps rnd0_def
  upd_ahead_def upd_back_def crossing_def

lemma lobby2_val:
  "lobby2 =
   \<lparr>members = [(''a'', ''Al''), (''b'', ''Bo'')],
    players =
    [(''a'',
    \<lparr>name = ''Al'', x_pos = 7 / 20, startX = 7 / 20, worldY = 0,
    startWorldY = 0, distance = 0, color = ''#ff6b6b'',
    stunned = False, stunnedUntil = 0, finished = False,
    finishTime = None, position = None, gridPosition = 1\<rparr>),
    (''b'',
    \<lparr>name = ''Bo'', x_pos = 13 / 20, startX = 13 / 20, worldY = 0,
    startWorldY = 0, distance = 0, color = ''#4ecdc4'',
    stunned = False, stunnedUntil = 0, finished = False,
    finishTime = None, position = None, gridPosition = 2\<rparr>)],
    obstacles = [], nextObstacleId = 0, lastSpawnWorldY = 0,
    furthestWorldY = 0, roadWidth = 200, gameSpeed = 2,
    lastExpansionTime = 0, createdAt = 0, creatorId = ''a'',
    raceState = WAITING, raceStartTime = None, countdownStartTime = None,
    countdownValue = 0, finishOrder = [], raceDistance = 1000,
    pausedAt = None\<rparr>"
  unfolding lobby2_def by (simp add: eval_defs)

lemma countdown2_val:
  "countdown2 =
   \<lparr>members = [(''a'', ''Al''), (''b'', ''Bo'')],
    players =
    [(''a'',
    \<lparr>name = ''Al'', x_pos = 7 / 20, startX = 7 / 20, worldY = 0,
    startWorldY = 0, distance = 0, color = ''#ff6b6b'',
    stunned = False, stunnedUntil = 0, finished = False,
    finishTime = None, position = None, gridPosition = 1\<rparr>),
    (''b'',
    \<lparr>name = ''Bo'', x_pos = 13 / 20, startX = 13 / 20, worldY = 0,
    startWorldY = 0, distance = 0, color = ''#4ecdc4'',
    stunned = False, stunnedUntil = 0, finished = False,
    finishTime = None, position = None, gridPosition = 2\<rparr>)],
    obstacles = [], nextObstacleId = 0, lastSpawnWorldY = 0,
    furthestWorldY = 0, roadWidth = 200, gameSpeed = 2,
    lastExpansionTime = 0, createdAt = 0, creatorId = ''a'',
    raceState = COUNTDOWN, raceStartTime = None, countdownStartTime = Some 1000,
    countdownValue = 3, finishOrder = [], raceDistance = 1000,
    pausedAt = None\<rparr>"
  unfolding countdown2_def lobby2_val by (simp add: eval_defs)

lemma racing2_val:
  "racing2 =
   \<lparr>members = [(''a'', ''Al''), (''b'', ''Bo'')],
    players =
    [(''a'',
    \<lparr>name = ''Al'', x_pos = 7 / 20, startX = 7 / 20, worldY = 0,
    startWorldY = 0, distance = 0, color = ''#ff6b6b'',
    stunned = False, stunnedUntil = 0, finished = False,
    finishTime = None, position = None, gridPosition = 1\<rparr>),
    (''b'',
    \<lparr>name = ''Bo'', x_pos = 13 / 20, startX = 13 / 20, worldY = 0,
    startWorldY = 0, distance = 0, color = ''#4ecdc4'',
    stunned = False, stunnedUntil = 0, finished = False,
    finishTime = None, position = None, gridPosition = 2\<rparr>)],
    obstacles =
    [\<lparr>obs_id = 0, obs_x = 1 / 2, obs_worldY = - 200, obs_distance = 100\<rparr>,
    \<lparr>obs_id = 1, obs_x = 1 / 2, obs_worldY = - 300, obs_distance = 150\<rparr>,
    \<lparr>obs_id = 2, obs_x = 1 / 2, obs_worldY = - 400, obs_distance = 200\<rparr>,
    \<lparr>obs_id = 3, obs_x = 1 / 2, obs_worldY = - 500, obs_distance = 250\<rparr>,
    \<lparr>obs_id = 4, obs_x = 1 / 2, obs_worldY = - 600, obs_distance = 300\<rparr>],
    nextObstacleId = 5, lastSpawnWorldY = - 600, furthestWorldY = 0,
    roadWidth = 200, gameSpeed = 4001 / 2000, lastExpansionTime = 0,
    createdAt = 0, creatorId = ''a'', raceState = RACING,
    raceStartTime = Some 4000, countdownStartTime = Some 1000,
    countdownValue = 0, finishOrder = [], raceDistance = 1000,
    pausedAt = None\<rparr>"
  unfolding racing2_def countdown2_val by (simp add: eval_defs)

lemma finished2_val:
  "finished2 =
   \<lparr>members = [(''a'', ''Al''), (''b'', ''Bo'')],
    players =
    [(''a'',
    \<lparr>name = ''Al'', x_pos = 1 / 2, startX = 7 / 20, worldY = - 2000,
    startWorldY = 0, distance = 1000, color = ''#ff6b6b'',
    stunned = False, stunnedUntil = 0, finished = True,
    finishTime = Some 5000, position = Some 1, gridPosition = 1\<rparr>),
    (''b'',
    \<lparr>name = ''Bo'', x_pos = 1 / 2, startX = 13 / 20, worldY = - 2000,
    startWorldY = 0, distance = 1000, color = ''#4ecdc4'',
    stunned = False, stunnedUntil = 0, finished = True,
    finishTime = Some 5500, position = Some 2, gridPosition = 2\<rparr>)],
    obstacles =
    [\<lparr>obs_id = 0, obs_x = 1 / 2, obs_worldY = - 200, obs_distance = 100\<rparr>,
    \<lparr>obs_id = 1, obs_x = 1 / 2, obs_worldY = - 300, obs_distance = 150\<rparr>,
    \<lparr>obs_id = 2, obs_x = 1 / 2, obs_worldY = - 400, obs_distance = 200\<rparr>,
    \<lparr>obs_id = 3, obs_x = 1 / 2, obs_worldY = - 500, obs_distance = 250\<rparr>,
    \<lparr>obs_id = 4, obs_x = 1 / 2, obs_worldY = - 600, obs_distance = 300\<rparr>],
    nextObstacleId = 5, lastSpawnWorldY = - 600, furthestWorldY = 0,
    roadWidth = 200, gameSpeed = 4001 / 2000, lastExpansionTime = 0,
    createdAt = 0, creatorId = ''a'', raceState = FINISHED,
    raceStartTime = Some 4000, countdownStartTime = Some 1000,
    countdownValue = 0, finishOrder = [''a'', ''b''], raceDistance = 1000,
    pausedAt = None\<rparr>"
  unfolding finished2_def racing2_val by (simp add: eval_defs)

lemma went_ahead_val:
  "went_ahead =
   \<lparr>members = [(''a'', ''Al''), (''b'', ''Bo'')],
    players =
    [(''a'',
    \<lparr>name = ''Al'', x_pos = 1 / 2, startX = 7 / 20, worldY = - 1000,
    startWorldY = 0, distance = 500, color = ''#ff6b6b'',
    stunned = False, stunnedUntil = 0, finished = False,
    finishTime = None, position = None, gridPosition = 1\<rparr>),
    (''b'',
    \<lparr>name = ''Bo'', x_pos = 1 / 2, startX = 13 / 20, worldY = - 1000,
    startWorldY = 0, distance = 500, color = ''#4ecdc4'',
    stunned = False, stunnedUntil = 0, finished = False,
    finishTime = None, position = None, gridPosition = 2\<rparr>)],
    obstacles =
    [\<lparr>obs_id = 7, obs_x = 1 / 2, obs_worldY = - 900, obs_distance = 450\<rparr>,
    \<lparr>obs_id = 8, obs_x = 1 / 2, obs_worldY = - 1000, obs_distance = 500\<rparr>,
    \<lparr>obs_id = 9, obs_x = 1 / 2, obs_worldY = - 1100, obs_distance = 550\<rparr>,
    \<lparr>obs_id = 10, obs_x = 1 / 2, obs_worldY = - 1200,
    obs_distance = 600\<rparr>,
    \<lparr>obs_id = 11, obs_x = 1 / 2, obs_worldY = - 1300,
    obs_distance = 650\<rparr>,
    \<lparr>obs_id = 12, obs_x = 1 / 2, obs_worldY = - 1400,
    obs_distance = 700\<rparr>,
    \<lparr>obs_id = 13, obs_x = 1 / 2, obs_worldY = - 1500,
    obs_distance = 750\<rparr>,
    \<lparr>obs_id = 14, obs_x = 1 / 2, obs_worldY = - 1600,
    obs_distance = 800\<rparr>],
    nextObstacleId = 15, lastSpawnWorldY = - 1600, furthestWorldY = 0,
    roadWidth = 200, gameSpeed = 2001 / 1000, lastExpansionTime = 0,
    createdAt = 0, creatorId = ''a'', raceState = RACING,
    raceStartTime = Some 4000, countdownStartTime = Some 1000,
    countdownValue = 0, finishOrder = [], raceDistance = 1000,
    pausedAt = None\<rparr>"
  unfolding went_ahead_def racing2_val by (simp add: eval_defs)

lemma back_at_start_val:
  "back_at_start =
   \<lparr>members = [(''a'', ''Al''), (''b'', ''Bo'')],
    players =
    [(''a'',
    \<lparr>name = ''Al'', x_pos = 1 / 2, startX = 7 / 20, worldY = 0,
    startWorldY = 0, distance = 500, color = ''#ff6b6b'',
    stunned = False, stunnedUntil = 0, finished = False,
    finishTime = None, position = None, gridPosition = 1\<rparr>),
    (''b'',
    \<lparr>name = ''Bo'', x_pos = 1 / 2, startX = 13 / 20, worldY = 0,
    startWorldY = 0, distance = 500, color = ''#4ecdc4'',
    stunned = False, stunnedUntil = 0, finished = False,
    finishTime = None, position = None, gridPosition = 2\<rparr>)],
    obstacles =
    [\<lparr>obs_id = 7, obs_x = 1 / 2, obs_worldY = - 900, obs_distance = 450\<rparr>,
    \<lparr>obs_id = 8, obs_x = 1 / 2, obs_worldY = - 1000, obs_distance = 500\<rparr>,
    \<lparr>obs_id = 9, obs_x = 1 / 2, obs_worldY = - 1100, obs_distance = 550\<rparr>,
    \<lparr>obs_id = 10, obs_x = 1 / 2, obs_worldY = - 1200,
    obs_distance = 600\<rparr>,
    \<lparr>obs_id = 11, obs_x = 1 / 2, obs_worldY = - 1300,
    obs_distance = 650\<rparr>,
    \<lparr>obs_id = 12, obs_x = 1 / 2, obs_worldY = - 1400,
    obs_distance = 700\<rparr>,
    \<lparr>obs_id = 13, obs_x = 1 / 2, obs_worldY = - 1500,
    obs_distance = 750\<rparr>,
    \<lparr>obs_id = 14, obs_x = 1 / 2, obs_worldY = - 1600,
    obs_distance = 800\<rparr>],
    nextObstacleId = 15, lastSpawnWorldY = - 1600, furthestWorldY = 0,
    roadWidth = 200, gameSpeed = 2001 / 1000, lastExpansionTime = 0,
    createdAt = 0, creatorId = ''a'', raceState = RACING,
    raceStartTime = Some 4000, countdownStartTime = Some 1000,
    countdownValue = 0, finishOrder = [], raceDistance = 1000,
    pausedAt = None\<rparr>"
  unfolding back_at_start_def went_ahead_val by (simp add: eval_defs)

lemma came_back_val:
  "came_back =
   \<lparr>members = [(''a'', ''Al''), (''b'', ''Bo'')],
    players =
    [(''a'',
    \<lparr>name = ''Al'', x_pos = 1 / 2, startX = 7 / 20, worldY = 0,
    startWorldY = 0, distance = 500, color = ''#ff6b6b'',
    stunned = False, stunnedUntil = 0, finished = False,
    finishTime = None, position = None, gridPosition = 1\<rparr>),
    (''b'',
    \<lparr>name = ''Bo'', x_pos = 1 / 2, startX = 13 / 20, worldY = 0,
    startWorldY = 0, distance = 500, color = ''#4ecdc4'',
    stunned = False, stunnedUntil = 0, finished = False,
    finishTime = None, position = None, gridPosition = 2\<rparr>)],
    obstacles =
    [\<lparr>obs_id = 7, obs_x = 1 / 2, obs_worldY = - 900, obs_distance = 450\<rparr>,
    \<lparr>obs_id = 8, obs_x = 1 / 2, obs_worldY = - 1000, obs_distance = 500\<rparr>,
    \<lparr>obs_id = 9, obs_x = 1 / 2, obs_worldY = - 1100, obs_distance = 550\<rparr>,
    \<lparr>obs_id = 10, obs_x = 1 / 2, obs_worldY = - 1200,
    obs_distance = 600\<rparr>,
    \<lparr>obs_id = 11, obs_x = 1 / 2, obs_worldY = - 1300,
    obs_distance = 650\<rparr>,
    \<lparr>obs_id = 12, obs_x = 1 / 2, obs_worldY = - 1400,
    obs_distance = 700\<rparr>,
    \<lparr>obs_id = 13, obs_x = 1 / 2, obs_worldY = - 1500,
    obs_distance = 750\<rparr>,
    \<lparr>obs_id = 14, obs_x = 1 / 2, obs_worldY = - 1600,
    obs_distance = 800\<rparr>],
    nextObstacleId = 15, lastSpawnWorldY = - 1600, furthestWorldY = 0,
    roadWidth = 200, gameSpeed = 4003 / 2000, lastExpansionTime = 0,
    createdAt = 0, creatorId = ''a'', raceState = RACING,
    raceStartTime = Some 4000, countdownStartTime = Some 1000,
    countdownValue = 0, finishOrder = [], raceDistance = 1000,
    pausedAt = None\<rparr>"
  unfolding came_back_def back_at_start_val by (simp add: eval_defs)

subsection \<open>Authority\<close>

text \<open>
  C1. A \<open>start-race\<close>, \<open>toggle-pause\<close>, \<open>restart-game\<close> or \<open>set-race-distance\<close>
  event from a socket that is not the room's creator leaves the whole room table as it
  was (so the room's \<open>raceState\<close>, \<open>roadWidth\<close>, \<open>gameSpeed\<close>, \<open>raceDistance\<close> and
  \<open>finishOrder\<close> too), and the only event emitted is an error to the sender.
\<close>

theorem non_host_commands_rejected:
  assumes "roomCode sock = Some rc" and "rc \<noteq> []" and "rooms rc = Some r"
    and "creatorId r \<noteq> sock_id sock"
  shows "on_start_race sock now rooms =
           (rooms, [(to_sender, Error ''Only the room creator can start the race'')])
       \<and> on_toggle_pause sock now rooms =
           (rooms, [(to_sender, Error ''Only the room creator can pause the race'')])
       \<and> on_restart_game sock now rooms =
           (rooms, [(to_sender, Error ''Only the room creator can restart the game'')])
       \<and> on_set_race_distance sock parsed rooms =
           (rooms, [(to_sender, Error ''Only the room creator can set race distance'')])"
  using assms
  by (simp add: on_start_race_def on_toggle_pause_def on_restart_game_def
      on_set_race_distance_def with_room_same start_race_def toggle_pause_def
      restart_game_def set_race_distance_def)

theorem non_host_commands_rejected_witness:
  "roomCode sock_b = Some ''ABCD'' \<and> ''ABCD'' \<noteq> []
   \<and> rooms0 ''ABCD'' = Some (new_room ''a'' 0)
   \<and> creatorId (new_room ''a'' 0) \<noteq> sock_id sock_b
   \<and> on_start_race sock_b 5 rooms0 =
           (rooms0, [(to_sender, Error ''Only the room creator can start the race'')])
   \<and> on_toggle_pause sock_b 5 rooms0 =
           (rooms0, [(to_sender, Error ''Only the room creator can pause the race'')])
   \<and> on_restart_game sock_b 5 rooms0 =
           (rooms0, [(to_sender, Error ''Only the room creator can restart the game'')])
   \<and> on_set_race_distance sock_b (Some 500) rooms0 =
           (rooms0, [(to_sender, Error ''Only the room creator can set race distance'')])"
  using non_host_commands_rejected [of sock_b "''ABCD''" rooms0 "new_room ''a'' 0" 5 "Some 500"]
  by (simp add: sock_b_def rooms0_def new_room_def)

text \<open>
  C10. A \<open>toggle-pause\<close> from the creator while the room is waiting, counting down or
  finished changes nothing in the room table and emits nothing, not even an error.
\<close>

theorem host_toggle_pause_silent:
  assumes "roomCode sock = Some rc" and "rc \<noteq> []" and "rooms rc = Some r"
    and "creatorId r = sock_id sock"
    and "raceState r = WAITING \<or> raceState r = COUNTDOWN \<or> raceState r = FINISHED"
  shows "on_toggle_pause sock now rooms = (rooms, [])"
  using assms
  by (auto simp add: on_toggle_pause_def with_room_same toggle_pause_def)

theorem host_toggle_pause_silent_witness:
  "roomCode sock_a = Some ''ABCD'' \<and> ''ABCD'' \<noteq> []
   \<and> rooms0 ''ABCD'' = Some (new_room ''a'' 0)
   \<and> creatorId (new_room ''a'' 0) = sock_id sock_a
   \<and> raceState (new_room ''a'' 0) = WAITING
   \<and> on_toggle_pause sock_a 5 rooms0 = (rooms0, [])"
  using host_toggle_pause_silent [of sock_a "''ABCD''" rooms0 "new_room ''a'' 0" 5]
  by (simp add: sock_a_def rooms0_def new_room_def)

subsection \<open>Stun\<close>

lemma stun_state_collision:
  assumes "obj_get (players r) s = Some p"
  shows "stun_state s (fst (collision s t r)) = Some (True, t + 2000)"
    and "obj_get (players (fst (collision s t r))) s \<noteq> None"
  using assms by (simp_all add: collision_def stun_state_def)

text \<open>
  C8 (amended). A \<open>collision\<close> event for an existing player sets \<open>stunned\<close> and puts
  \<open>stunnedUntil\<close> at \<open>now + 2000\<close>. A second collision while stunned keeps the flag
  and moves \<open>stunnedUntil\<close> to the second event's \<open>now + 2000\<close>: the stun state is the
  same as after the first exactly when both events carry the same time.
\<close>

theorem collision_restarts_stun:
  assumes "obj_get (players r) s = Some p"
  shows "stun_state s (fst (collision s t1 r)) = Some (True, t1 + 2000)
       \<and> snd (collision s t1 r) = []
       \<and> stun_state s (fst (collision s t2 (fst (collision s t1 r)))) = Some (True, t2 + 2000)
       \<and> (stun_state s (fst (collision s t2 (fst (collision s t1 r))))
            = stun_state s (fst (collision s t1 r)) \<longleftrightarrow> t2 = t1)"
proof -
  obtain p1 where p1: "obj_get (players (fst (collision s t1 r))) s = Some p1"
    using stun_state_collision(2) [OF assms] by blast
  have a: "stun_state s (fst (collision s t1 r)) = Some (True, t1 + 2000)"
    by (rule stun_state_collision(1) [OF assms])
  have b: "stun_state s (fst (collision s t2 (fst (collision s t1 r)))) = Some (True, t2 + 2000)"
    by (rule stun_state_collision(1) [OF p1])
  have c: "snd (collision s t1 r) = []"
    using assms by (simp add: collision_def)
  show ?thesis unfolding a b using c by simp
qed

theorem collision_restarts_stun_witness:
  "obj_get (players lobby2) ''a'' \<noteq> None
   \<and> stun_state ''a'' (fst (collision ''a'' 0 lobby2)) = Some (True, 2000)
   \<and> stun_state ''a'' (fst (collision ''a'' 1000 (fst (collision ''a'' 0 lobby2)))) = Some (True, 3000)"
proof -
  obtain p where p: "obj_get (players lobby2) ''a'' = Some p"
    by (simp add: lobby2_val obj_get_def)
  show ?thesis
    using collision_restarts_stun [OF p, of 0 1000] p by simp
qed

text \<open>
  C8 as stated fails: a second collision one second into the stun pushes the end of the
  stun from 2000 to 3000.
\<close>

theorem collision_not_idempotent:
  "stun_state ''a'' (fst (collision ''a'' 1000 (fst (collision ''a'' 0 lobby2))))
     \<noteq> stun_state ''a'' (fst (collision ''a'' 0 lobby2))"
  by (simp add: lobby2_val collision_def stun_state_def obj_get_def)

subsection \<open>Restart\<close>

lemma reset_players_keys: "map fst (reset_players i ps) = map fst ps"
  by (induction i ps rule: reset_players.induct) auto

lemma reset_players_fresh:
  "list_all (\<lambda>p. \<not> finished p \<and> distance p = 0 \<and> finishTime p = None \<and> position p = None
                  \<and> \<not> stunned p \<and> worldY p = startWorldY p \<and> x_pos p = startX p)
     (obj_values (reset_players i ps))"
  by (induction i ps rule: reset_players.induct) (auto simp: obj_values_def reset_player_def Let_def)

text \<open>
  C7 (amended). A \<open>restart-game\<close> event from the creator is accepted in every race
  state. It always puts every player back on its grid slot (unfinished, distance 0, no
  finish time or position, not stunned), clears the obstacles and the finish order, resets
  the difficulty to its base values, sets the race state to waiting and announces
  \<open>game-restarted\<close> to the room.
\<close>

theorem host_restart_resets_in_any_state:
  "restart_game (creatorId r) now r =
     (r\<lparr>players := reset_players 0 (players r),
         obstacles := [], nextObstacleId := 0, lastSpawnWorldY := 0, furthestWorldY := 0,
         roadWidth := BASE_ROAD_WIDTH, gameSpeed := BASE_GAME_SPEED, lastExpansionTime := now,
         raceState := WAITING, raceStartTime := None, countdownStartTime := None,
         countdownValue := 0, finishOrder := []\<rparr>,
      [(to_room, GameRestarted ''Game restarted by host!'' WAITING
                   (length (players r) \<ge> MIN_PLAYERS_TO_START) (length (players r)))])
   \<and> map fst (reset_players 0 (players r)) = map fst (players r)
   \<and> list_all (\<lambda>p. \<not> finished p \<and> distance p = 0 \<and> finishTime p = None \<and> position p = None
                  \<and> \<not> stunned p \<and> worldY p = startWorldY p \<and> x_pos p = startX p)
        (obj_values (reset_players 0 (players r)))"
proof -
  have "length (reset_players 0 (players r)) = length (players r)"
    using reset_players_keys [of 0 "players r"] by (metis length_map)
  then show ?thesis
    by (simp add: restart_game_def Let_def reset_players_keys reset_players_fresh)
qed

theorem host_restart_resets_in_any_state_witness:
  "raceState racing2 = RACING
   \<and> raceState (fst (restart_game (creatorId racing2) 5000 racing2)) = WAITING
   \<and> obstacles (fst (restart_game (creatorId racing2) 5000 racing2)) = []"
  using host_restart_resets_in_any_state [of racing2 5000]
  by (simp add: racing2_val)

text \<open>
  C7 as stated fails: the creator's restart in the middle of a race ends the race, drops
  the five obstacles and resets the speed.
\<close>

theorem host_restart_while_racing:
  "raceState racing2 = RACING
   \<and> creatorId racing2 = ''a''
   \<and> raceState (fst (restart_game ''a'' 5000 racing2)) = WAITING
   \<and> obstacles racing2 \<noteq> []
   \<and> obstacles (fst (restart_game ''a'' 5000 racing2)) = []
   \<and> gameSpeed racing2 = 2.0005
   \<and> gameSpeed (fst (restart_game ''a'' 5000 racing2)) = 2"
  by (simp add: racing2_val restart_game_def eval_defs)

subsection \<open>Ticks and histories\<close>

lemma tick_room_idle:
  assumes "raceState r \<noteq> COUNTDOWN" and "raceState r \<noteq> RACING"
  shows "fst (tick_room now rnd r) = r"
  using assms
  by (simp add: tick_room_def tick_countdown_def tick_racing_def tick_obstacles_def
      split: prod.splits)

lemma tick_room_snapshot:
  "\<exists>out. snd (tick_room now rnd r)
          = out @ [(to_room, GameState (game_state now (fst (tick_room now rnd r))))]"
  by (simp add: tick_room_def Let_def split: prod.splits)

lemma reported_raceTime_last [simp]:
  "reported_raceTime (out @ [(a, GameState snap)]) = Some (gs_raceTime snap)"
  by (induction out) (auto split: option.splits)

lemma reported_raceTime_tick:
  "reported_raceTime (snd (tick_room now rnd r)) = Some (raceTime now (fst (tick_room now rnd r)))"
proof -
  obtain out where "snd (tick_room now rnd r)
          = out @ [(to_room, GameState (game_state now (fst (tick_room now rnd r))))]"
    using tick_room_snapshot by blast
  then show ?thesis by (simp add: game_state_def)
qed

lemma tick_obstacles_frame:
  "raceState (tick_obstacles rnd ext r) = raceState r"
  "raceStartTime (tick_obstacles rnd ext r) = raceStartTime r"
  "creatorId (tick_obstacles rnd ext r) = creatorId r"
  "pausedAt (tick_obstacles rnd ext r) = pausedAt r"
  "gameSpeed (tick_obstacles rnd ext r) = gameSpeed r"
  "roadWidth (tick_obstacles rnd ext r) = roadWidth r"
  "players (tick_obstacles rnd ext r) = players r"
  "finishOrder (tick_obstacles rnd ext r) = finishOrder r"
  by (simp_all add: tick_obstacles_def Let_def split: prod.splits)

lemma tick_racing_frame:
  "raceState (tick_racing now r) = raceState r"
  "raceStartTime (tick_racing now r) = raceStartTime r"
  "creatorId (tick_racing now r) = creatorId r"
  "pausedAt (tick_racing now r) = pausedAt r"
  "finishOrder (tick_racing now r) = finishOrder r"
  "obstacles (tick_racing now r) = obstacles r"
  "lastSpawnWorldY (tick_racing now r) = lastSpawnWorldY r"
  by (simp_all add: tick_racing_def Let_def)

lemma tick_room_racing_frame:
  assumes "raceState r = RACING"
  shows "raceState (fst (tick_room now rnd r)) = RACING"
    and "raceStartTime (fst (tick_room now rnd r)) = raceStartTime r"
    and "creatorId (fst (tick_room now rnd r)) = creatorId r"
  using assms
  by (simp_all add: tick_room_def tick_countdown_def tick_obstacles_frame tick_racing_frame
      Let_def)

lemma run_append:
  "run rc (es @ fs) r =
     (case run rc es r of (r1, out1) \<Rightarrow>
        (case run rc fs r1 of (r2, out2) \<Rightarrow> (r2, out1 @ out2)))"
  by (induction es arbitrary: r) (auto split: prod.splits)

lemma fst_run_append: "fst (run rc (es @ fs) r) = fst (run rc fs (fst (run rc es r)))"
  by (simp add: run_append split: prod.splits)

lemma fst_run_Cons: "fst (run rc (e # es) r) = fst (run rc es (fst (room_step rc e r)))"
  by (simp split: prod.splits)

lemma run_ticks_idle:
  assumes "raceState r \<noteq> COUNTDOWN" and "raceState r \<noteq> RACING"
  shows "fst (run rc (tick_events ts) r) = r"
  using assms
proof (induction ts)
  case Nil
  then show ?case by simp
next
  case (Cons a ts)
  obtain t rnd where a: "a = (t, rnd)" by (cases a)
  show ?case
    unfolding a tick_events.simps fst_run_Cons room_step.simps
    using Cons by (simp add: tick_room_idle)
qed

subsection \<open>Pause and resume\<close>

text \<open>
  The room is racing with start time \<open>s\<close>. A tick at \<open>tb\<close> reports the race time, the
  creator pauses at \<open>t0\<close>, any number of ticks run while the room is paused, the creator
  resumes at \<open>t1\<close>, and a tick at \<open>ta\<close> reports the race time again.
\<close>

lemma pause_resume_reports:
  assumes racing: "raceState r = RACING"
    and host: "creatorId r = h"
    and start: "raceStartTime r = Some s"
    and pos: "0 < s"
    and mono: "t0 \<le> t1"
  shows "raceState (fst (run rc (Ev_tick tb rnd # Ev_toggle_pause h t0 # tick_events ts) r)) = PAUSED
       \<and> raceState (fst (run rc (Ev_tick tb rnd # Ev_toggle_pause h t0 # tick_events ts
                                  @ [Ev_toggle_pause h t1]) r)) = RACING
       \<and> raceStartTime (fst (run rc (Ev_tick tb rnd # Ev_toggle_pause h t0 # tick_events ts
                                  @ [Ev_toggle_pause h t1]) r)) = Some (s + (t1 - t0))
       \<and> reported_raceTime (snd (tick_room tb rnd r)) = Some (tb - s)
       \<and> reported_raceTime (snd (tick_room ta rnd'
             (fst (run rc (Ev_tick tb rnd # Ev_toggle_pause h t0 # tick_events ts
                           @ [Ev_toggle_pause h t1]) r))))
           = Some ((tb - s) + (t0 - tb) + (ta - t1))"
proof -
  let ?rb = "fst (tick_room tb rnd r)"
  let ?rp = "?rb\<lparr>raceState := PAUSED, pausedAt := Some t0\<rparr>"
  let ?rr = "?rp\<lparr>raceStartTime := Some (s + (t1 - t0)), raceState := RACING, pausedAt := None\<rparr>"
  have rb: "raceState ?rb = RACING" "raceStartTime ?rb = Some s" "creatorId ?rb = h"
    using tick_room_racing_frame [OF racing, of tb rnd] start host by simp_all
  have p: "fst (toggle_pause h t0 ?rb) = ?rp"
    using rb by (simp add: toggle_pause_def)
  have idle: "fst (run rc (tick_events ts) ?rp) = ?rp"
    by (rule run_ticks_idle) simp_all
  have paused: "fst (run rc (Ev_tick tb rnd # Ev_toggle_pause h t0 # tick_events ts) r) = ?rp"
    by (simp only: fst_run_Cons room_step.simps p idle)
  have res: "fst (toggle_pause h t1 ?rp) = ?rr"
    using rb by (simp add: toggle_pause_def num_def)
  have "fst (run rc ((Ev_tick tb rnd # Ev_toggle_pause h t0 # tick_events ts)
                      @ [Ev_toggle_pause h t1]) r) = ?rr"
    unfolding fst_run_append paused by (simp add: res)
  then have resumed: "fst (run rc (Ev_tick tb rnd # Ev_toggle_pause h t0 # tick_events ts
                                  @ [Ev_toggle_pause h t1]) r) = ?rr"
    by simp
  have before: "reported_raceTime (snd (tick_room tb rnd r)) = Some (tb - s)"
    using rb pos by (simp add: reported_raceTime_tick raceTime_def)
  have rr: "raceState ?rr = RACING" by simp
  have "raceStartTime (fst (tick_room ta rnd' ?rr)) = Some (s + (t1 - t0))"
    using tick_room_racing_frame(2) [OF rr, of ta rnd'] by simp
  then have after: "reported_raceTime (snd (tick_room ta rnd' ?rr))
                     = Some ((tb - s) + (t0 - tb) + (ta - t1))"
    using pos mono by (simp add: reported_raceTime_tick raceTime_def)
  show ?thesis
    unfolding paused resumed using before after by simp
qed

text \<open>
  C2 (amended). The resume adds the pause duration \<open>t1 - t0\<close> to \<open>raceStartTime\<close>, so
  the elapsed race time at the resume instant equals the elapsed race time at the pause
  instant, for every pause duration. The first snapshot after the resume reports the race
  time of the last snapshot before the pause plus the two part-tick gaps \<open>t0 - tb\<close> and
  \<open>ta - t1\<close>: when each gap is shorter than a tick interval, the two reports are less
  than two tick intervals apart (not one). Timestamps are those of \<open>Date.now()\<close>:
  positive, and not going backwards from pause to resume.
\<close>

theorem pause_time_neutral_up_to_gaps:
  assumes racing: "raceState r = RACING"
    and host: "creatorId r = h"
    and start: "raceStartTime r = Some s"
    and pos: "0 < s"
    and mono: "t0 \<le> t1"
  shows "raceState (fst (run rc (Ev_tick tb rnd # Ev_toggle_pause h t0 # tick_events ts) r)) = PAUSED
       \<and> raceState (fst (run rc (Ev_tick tb rnd # Ev_toggle_pause h t0 # tick_events ts
                                  @ [Ev_toggle_pause h t1]) r)) = RACING
       \<and> raceStartTime (fst (run rc (Ev_tick tb rnd # Ev_toggle_pause h t0 # tick_events ts
                                  @ [Ev_toggle_pause h t1]) r)) = Some (s + (t1 - t0))
       \<and> raceTime t1 (fst (run rc (Ev_tick tb rnd # Ev_toggle_pause h t0 # tick_events ts
                                  @ [Ev_toggle_pause h t1]) r)) = raceTime t0 r
       \<and> reported_raceTime (snd (tick_room tb rnd r)) = Some (tb - s)
       \<and> reported_raceTime (snd (tick_room ta rnd'
             (fst (run rc (Ev_tick tb rnd # Ev_toggle_pause h t0 # tick_events ts
                           @ [Ev_toggle_pause h t1]) r))))
           = Some ((tb - s) + (t0 - tb) + (ta - t1))
       \<and> (tb \<le> t0 \<and> real_of_int (t0 - tb) < tick_interval
            \<and> t1 \<le> ta \<and> real_of_int (ta - t1) < tick_interval \<longrightarrow>
           (\<exists>before after.
               reported_raceTime (snd (tick_room tb rnd r)) = Some before
             \<and> reported_raceTime (snd (tick_room ta rnd'
                   (fst (run rc (Ev_tick tb rnd # Ev_toggle_pause h t0 # tick_events ts
                                 @ [Ev_toggle_pause h t1]) r)))) = Some after
             \<and> before \<le> after
             \<and> real_of_int (after - before) < 2 * tick_interval))"
proof -
  let ?res = "fst (run rc (Ev_tick tb rnd # Ev_toggle_pause h t0 # tick_events ts
                                  @ [Ev_toggle_pause h t1]) r)"
  note core = pause_resume_reports [OF assms, of rc tb rnd ts ta rnd']
  note c1 = core [THEN conjunct1]
    and c2 = core [THEN conjunct2, THEN conjunct1]
    and c3 = core [THEN conjunct2, THEN conjunct2, THEN conjunct1]
    and c4 = core [THEN conjunct2, THEN conjunct2, THEN conjunct2, THEN conjunct1]
    and c5 = core [THEN conjunct2, THEN conjunct2, THEN conjunct2, THEN conjunct2]
  have inst: "raceTime t1 ?res = raceTime t0 r"
    using c3 start pos mono by (simp add: raceTime_def)
  have bound: "tb \<le> t0 \<and> real_of_int (t0 - tb) < tick_interval
            \<and> t1 \<le> ta \<and> real_of_int (ta - t1) < tick_interval \<longrightarrow>
           (\<exists>before after.
               reported_raceTime (snd (tick_room tb rnd r)) = Some before
             \<and> reported_raceTime (snd (tick_room ta rnd' ?res)) = Some after
             \<and> before \<le> after
             \<and> real_of_int (after - before) < 2 * tick_interval)"
  proof
    assume g: "tb \<le> t0 \<and> real_of_int (t0 - tb) < tick_interval
            \<and> t1 \<le> ta \<and> real_of_int (ta - t1) < tick_interval"
    have le: "tb - s \<le> (tb - s) + (t0 - tb) + (ta - t1)" using g by linarith
    have "real_of_int (((tb - s) + (t0 - tb) + (ta - t1)) - (tb - s))
            = real_of_int (t0 - tb) + real_of_int (ta - t1)"
      by simp
    then have lt: "real_of_int (((tb - s) + (t0 - tb) + (ta - t1)) - (tb - s))
                     < 2 * tick_interval"
      using g by linarith
    show "\<exists>before after.
               reported_raceTime (snd (tick_room tb rnd r)) = Some before
             \<and> reported_raceTime (snd (tick_room ta rnd' ?res)) = Some after
             \<and> before \<le> after
             \<and> real_of_int (after - before) < 2 * tick_interval"
      using c4 c5 le lt by (intro exI conjI)
  qed
  show ?thesis
    by (intro conjI) (fact c1 c2 c3 inst c4 c5 bound)+
qed

theorem pause_time_neutral_up_to_gaps_witness:
  "raceState racing2 = RACING \<and> creatorId racing2 = ''a''
   \<and> raceStartTime racing2 = Some 4000 \<and> (0::int) < 4000 \<and> (10010::int) \<le> 15010
   \<and> (10000::int) \<le> 10010 \<and> real_of_int (10010 - 10000) < tick_interval
   \<and> (15010::int) \<le> 15020 \<and> real_of_int (15020 - 15010) < tick_interval
   \<and> reported_raceTime (snd (tick_room 10000 rnd0 racing2)) = Some 6000
   \<and> reported_raceTime (snd (tick_room 15020 rnd0
         (fst (run ''ABCD'' (Ev_tick 10000 rnd0 # Ev_toggle_pause ''a'' 10010
                             # tick_events [(12000, rnd0)] @ [Ev_toggle_pause ''a'' 15010])
                 racing2)))) = Some 6020
   \<and> real_of_int (6020 - 6000) < 2 * tick_interval"
proof -
  have h: "raceState racing2 = RACING" "creatorId racing2 = ''a''"
    "raceStartTime racing2 = Some 4000"
    by (simp_all add: racing2_val)
  have n: "(0::int) < 4000" "(10010::int) \<le> 15010" by simp_all
  have g: "(10000::int) \<le> 10010" "real_of_int (10010 - 10000) < tick_interval"
    "(15010::int) \<le> 15020" "real_of_int (15020 - 15010) < tick_interval"
    "real_of_int (6020 - 6000) < 2 * tick_interval"
    by (simp_all add: tick_interval_def TICK_RATE_def)
  note t = pause_time_neutral_up_to_gaps [OF h n, of "''ABCD''" 10000 rnd0 "[(12000, rnd0)]"
      15020 rnd0]
  have b: "reported_raceTime (snd (tick_room 10000 rnd0 racing2)) = Some 6000"
    using t [THEN conjunct2, THEN conjunct2, THEN conjunct2, THEN conjunct2, THEN conjunct1]
    by simp
  have a: "reported_raceTime (snd (tick_room 15020 rnd0
         (fst (run ''ABCD'' (Ev_tick 10000 rnd0 # Ev_toggle_pause ''a'' 10010
                             # tick_events [(12000, rnd0)] @ [Ev_toggle_pause ''a'' 15010])
                 racing2)))) = Some 6020"
    using t [THEN conjunct2, THEN conjunct2, THEN conjunct2, THEN conjunct2, THEN conjunct2,
        THEN conjunct1]
    by simp
  show ?thesis
    by (intro conjI) (fact h n g b a)+
qed

text \<open>
  C2 as stated fails: with a snapshot at 10000, the pause at 10032, the resume at 15001
  and the next snapshot at 15033, both gaps are shorter than a tick interval and the two
  reports, 6000 and 6064, are 64 ms apart: more than one tick interval of 33.3 ms.
\<close>

theorem pause_reports_more_than_one_tick_apart:
  "raceState racing2 = RACING \<and> creatorId racing2 = ''a''
   \<and> real_of_int (10032 - 10000) < tick_interval
   \<and> real_of_int (15033 - 15001) < tick_interval
   \<and> reported_raceTime (snd (tick_room 10000 rnd0 racing2)) = Some 6000
   \<and> reported_raceTime (snd (tick_room 15033 rnd0
         (fst (run ''ABCD'' [Ev_tick 10000 rnd0, Ev_toggle_pause ''a'' 10032,
                             Ev_toggle_pause ''a'' 15001] racing2)))) = Some 6064
   \<and> tick_interval < real_of_int (6064 - 6000)"
proof -
  have h: "raceState racing2 = RACING" "creatorId racing2 = ''a''"
    "raceStartTime racing2 = Some 4000"
    by (simp_all add: racing2_val)
  have n: "(0::int) < 4000" "(10032::int) \<le> 15001" by simp_all
  have g: "real_of_int (10032 - 10000) < tick_interval"
    "real_of_int (15033 - 15001) < tick_interval"
    "tick_interval < real_of_int (6064 - 6000)"
    by (simp_all add: tick_interval_def TICK_RATE_def)
  note t = pause_resume_reports [OF h n, of "''ABCD''" 10000 rnd0 "[]" 15033 rnd0]
  have b: "reported_raceTime (snd (tick_room 10000 rnd0 racing2)) = Some 6000"
    using t [THEN conjunct2, THEN conjunct2, THEN conjunct2, THEN conjunct1]
    by simp
  have a: "reported_raceTime (snd (tick_room 15033 rnd0
         (fst (run ''ABCD'' [Ev_tick 10000 rnd0, Ev_toggle_pause ''a'' 10032,
                             Ev_toggle_pause ''a'' 15001] racing2)))) = Some 6064"
    using t [THEN conjunct2, THEN conjunct2, THEN conjunct2, THEN conjunct2]
    by simp
  show ?thesis
    by (intro conjI) (fact h(1,2) g b a)+
qed

subsection \<open>The obstacle window\<close>

lemma world_extent_loop_True:
  "world_extent_loop ps (mn, mx, True) =
     (Min (insert mn ((\<lambda>kp. worldY (snd kp)) ` set ps)),
      Max (insert mx ((\<lambda>kp. worldY (snd kp)) ` set ps)), True)"
proof (induction ps arbitrary: mn mx)
  case Nil
  then show ?case by simp
next
  case (Cons a ps)
  obtain k p where a: "a = (k, p)" by (cases a)
  let ?S = "(\<lambda>kp. worldY (snd kp)) ` set ps"
  have fin: "finite ?S" by simp
  have mn: "Min (insert (if worldY p < mn then worldY p else mn) ?S)
          = Min (insert mn (insert (worldY p) ?S))"
    using fin by (cases "?S = {}") (auto simp: min_def)
  have mx: "Max (insert (if worldY p > mx then worldY p else mx) ?S)
          = Max (insert mx (insert (worldY p) ?S))"
    using fin by (cases "?S = {}") (auto simp: max_def)
  show ?case
    unfolding a by (simp add: Let_def Cons.IH mn mx del: Min_insert Max_insert)
qed

lemma world_extent_nonempty:
  assumes "ps \<noteq> []"
  shows "world_extent ps =
     (Min ((\<lambda>kp. worldY (snd kp)) ` set ps), Max ((\<lambda>kp. worldY (snd kp)) ` set ps), True)"
proof -
  obtain k p qs where ps: "ps = (k, p) # qs" using assms by (cases ps) auto
  show ?thesis
    unfolding ps world_extent_def by (simp add: Let_def world_extent_loop_True del: Min_insert Max_insert)
qed


lemma spawn_loop_props:
  "case spawn_loop rnd thr (k, c, n, obs) of
     (k', c', n', obs') \<Rightarrow>
        c' \<le> thr \<and> (\<exists>new. obs' = obs @ new)
      \<and> (thr + spawnIntervalPixels < c \<longrightarrow>
           (\<exists>ob \<in> set obs'. thr < obs_worldY ob \<and> obs_worldY ob \<le> thr + spawnIntervalPixels))"
proof (induction rnd thr "(k, c, n, obs)" arbitrary: k c n obs rule: spawn_loop.induct)
  case (1 rnd thr k c n obs)
  show ?case
  proof (cases "thr < c")
    case False
    have pos: "0 < spawnIntervalPixels"
      by (simp add: spawnIntervalPixels_def OBSTACLE_SPAWN_INTERVAL_def PIXELS_PER_METER_def)
    have "spawn_loop rnd thr (k, c, n, obs) = (k, c, n, obs)"
      using False by (simp add: spawn_loop.simps)
    then show ?thesis using False pos by simp
  next
    case True
    let ?c = "c - spawnIntervalPixels"
    let ?ob = "\<lparr> obs_id = n, obs_x = obstacleX (rnd k) (rnd (k + 1)), obs_worldY = ?c,
                 obs_distance = \<bar>?c\<bar> / PIXELS_PER_METER \<rparr>"
    have unf: "spawn_loop rnd thr (k, c, n, obs)
                 = spawn_loop rnd thr (k + 2, ?c, n + 1, obs @ [?ob])"
      using True by (simp add: spawn_loop.simps [of rnd thr k c] Let_def)
    obtain k' c' n' obs' where res:
      "spawn_loop rnd thr (k + 2, ?c, n + 1, obs @ [?ob]) = (k', c', n', obs')"
      by (cases "spawn_loop rnd thr (k + 2, ?c, n + 1, obs @ [?ob])") auto
    from "1.hyps" [OF True refl refl] res
    have ih: "c' \<le> thr" "\<exists>new. obs' = (obs @ [?ob]) @ new"
      "thr + spawnIntervalPixels < ?c \<longrightarrow>
         (\<exists>ob \<in> set obs'. thr < obs_worldY ob \<and> obs_worldY ob \<le> thr + spawnIntervalPixels)"
      by simp_all
    from ih(2) obtain new where new: "obs' = obs @ ([?ob] @ new)" by auto
    have near: "\<exists>ob \<in> set obs'. thr < obs_worldY ob \<and> obs_worldY ob \<le> thr + spawnIntervalPixels"
      if far: "thr + spawnIntervalPixels < c"
    proof (cases "thr + spawnIntervalPixels < ?c")
      case True
      with ih(3) show ?thesis by blast
    next
      case False
      have "?ob \<in> set obs'" using new by simp
      moreover have "thr < obs_worldY ?ob" using far by simp
      moreover have "obs_worldY ?ob \<le> thr + spawnIntervalPixels" using False by simp
      ultimately show ?thesis by blast
    qed
    show ?thesis
      unfolding unf res using ih(1) new near by auto
  qed
qed

lemma world_extent_loop_expire:
  "world_extent_loop (map (\<lambda>(k, p). (k, expire_stun now p)) ps) acc = world_extent_loop ps acc"
proof (induction ps arbitrary: acc)
  case Nil
  then show ?case by simp
next
  case (Cons a ps)
  obtain k p where a: "a = (k, p)" by (cases a)
  obtain mn mx has where acc: "acc = (mn, mx, has)" by (cases acc)
  have wy: "worldY (expire_stun now p) = worldY p" by (simp add: expire_stun_def)
  show ?case unfolding a acc by (simp add: wy Cons.IH)
qed

lemma world_extent_tick_racing:
  "world_extent (players (tick_racing now r)) = world_extent (players r)"
  by (simp add: tick_racing_def Let_def world_extent_def world_extent_loop_expire)

lemma tick_racing_nonempty: "players (tick_racing now r) = [] \<longleftrightarrow> players r = []"
  by (simp add: tick_racing_def Let_def)

lemma tick_countdown_frame:
  "players (fst (tick_countdown now r)) = players r"
  "obstacles (fst (tick_countdown now r)) = obstacles r"
  "lastSpawnWorldY (fst (tick_countdown now r)) = lastSpawnWorldY r"
  "creatorId (fst (tick_countdown now r)) = creatorId r"
  "finishOrder (fst (tick_countdown now r)) = finishOrder r"
  "roadWidth (fst (tick_countdown now r)) = roadWidth r"
  by (simp_all add: tick_countdown_def Let_def split: prod.splits)

lemma fst_tick_room:
  "fst (tick_room now rnd r) =
     tick_obstacles rnd (world_extent (players (tick_racing now (fst (tick_countdown now r)))))
       (tick_racing now (fst (tick_countdown now r)))"
  by (simp add: tick_room_def Let_def split: prod.splits)

lemma tick_room_players_nonempty:
  "players (fst (tick_room now rnd r)) = [] \<longleftrightarrow> players r = []"
  by (simp add: fst_tick_room tick_obstacles_frame tick_racing_nonempty tick_countdown_frame)

lemma tick_room_extent:
  "world_extent (players (fst (tick_room now rnd r))) = world_extent (players r)"
  by (simp add: fst_tick_room tick_obstacles_frame world_extent_tick_racing tick_countdown_frame)

lemma tick_room_raceState:
  "raceState (fst (tick_room now rnd r)) = raceState (fst (tick_countdown now r))"
  by (simp add: fst_tick_room tick_obstacles_frame tick_racing_frame)

text \<open>What the obstacle block leaves behind, in a racing room.\<close>

lemma tick_obstacles_racing:
  assumes "raceState r = RACING"
  shows "\<exists>new. obstacles (tick_obstacles rnd (mn, mx, has) r)
                 = filter (\<lambda>ob. obs_worldY ob < mx + despawnBufferPixels) (obstacles r @ new)
             \<and> lastSpawnWorldY (tick_obstacles rnd (mn, mx, has) r) \<le> mn - spawnAheadPixels
             \<and> ((lastSpawnWorldY r = 0 \<and> has
                   \<or> mn - spawnAheadPixels + spawnIntervalPixels < lastSpawnWorldY r)
                  \<longrightarrow> (\<exists>ob \<in> set (obstacles r @ new).
                         mn - spawnAheadPixels < obs_worldY ob
                       \<and> obs_worldY ob \<le> mn - spawnAheadPixels + spawnIntervalPixels))"
proof -
  let ?cursor = "if lastSpawnWorldY r = 0 \<and> has then mn - spawnIntervalPixels
                 else lastSpawnWorldY r"
  let ?thr = "mn - spawnAheadPixels"
  obtain k' c' n' obs' where res:
    "spawn_loop rnd ?thr (0, ?cursor, nextObstacleId r, obstacles r) = (k', c', n', obs')"
    by (cases "spawn_loop rnd ?thr (0, ?cursor, nextObstacleId r, obstacles r)") auto
  from spawn_loop_props [where rnd = rnd and thr = ?thr and k = 0 and c = ?cursor
      and n = "nextObstacleId r" and obs = "obstacles r"] res
  have p: "c' \<le> ?thr" "\<exists>new. obs' = obstacles r @ new"
    "?thr + spawnIntervalPixels < ?cursor \<longrightarrow>
       (\<exists>ob \<in> set obs'. ?thr < obs_worldY ob \<and> obs_worldY ob \<le> ?thr + spawnIntervalPixels)"
    by simp_all
  from p(2) obtain new where new: "obs' = obstacles r @ new" by blast
  have t: "tick_obstacles rnd (mn, mx, has) r =
             r\<lparr>lastSpawnWorldY := c', nextObstacleId := n',
               obstacles := filter (\<lambda>ob. obs_worldY ob < mx + despawnBufferPixels) obs'\<rparr>"
    using assms res by (simp add: tick_obstacles_def Let_def)
  have far: "?thr + spawnIntervalPixels < ?cursor"
    if "lastSpawnWorldY r = 0 \<and> has \<or> ?thr + spawnIntervalPixels < lastSpawnWorldY r"
    using that
    by (auto simp: spawnAheadPixels_def spawnIntervalPixels_def SPAWN_AHEAD_DISTANCE_def
        OBSTACLE_SPAWN_INTERVAL_def PIXELS_PER_METER_def)
  show ?thesis
    unfolding t using p(1) p(3) far new by (intro exI [of _ new]) auto
qed


lemma tick_obstacles_idle: "raceState r \<noteq> RACING \<Longrightarrow> tick_obstacles rnd ext r = r"
  by (cases ext) (simp add: tick_obstacles_def)

text \<open>The obstacle block of a tick, in terms of the room the tick returns.\<close>

lemma tick_room_obstacles_racing:
  assumes "raceState (fst (tick_room now rnd r)) = RACING"
  shows "\<exists>new. obstacles (fst (tick_room now rnd r))
                 = filter (\<lambda>ob. obs_worldY ob
                               < trailerWorldY (fst (tick_room now rnd r)) + despawnBufferPixels)
                     (obstacles r @ new)
             \<and> lastSpawnWorldY (fst (tick_room now rnd r))
                 \<le> leaderWorldY (fst (tick_room now rnd r)) - spawnAheadPixels
             \<and> ((lastSpawnWorldY r = 0 \<and> players r \<noteq> []
                   \<or> leaderWorldY (fst (tick_room now rnd r)) - spawnAheadPixels
                        + spawnIntervalPixels < lastSpawnWorldY r)
                  \<longrightarrow> (\<exists>ob \<in> set (obstacles r @ new).
                         leaderWorldY (fst (tick_room now rnd r)) - spawnAheadPixels
                           < obs_worldY ob
                       \<and> obs_worldY ob \<le> leaderWorldY (fst (tick_room now rnd r))
                                           - spawnAheadPixels + spawnIntervalPixels))"
proof -
  let ?r2 = "tick_racing now (fst (tick_countdown now r))"
  obtain mn mx has where ext: "world_extent (players ?r2) = (mn, mx, has)"
    by (cases "world_extent (players ?r2)") auto
  have r': "fst (tick_room now rnd r) = tick_obstacles rnd (mn, mx, has) ?r2"
    by (simp add: fst_tick_room ext)
  have racing: "raceState ?r2 = RACING"
    using assms by (simp add: r' tick_obstacles_frame)
  have ext': "world_extent (players (fst (tick_room now rnd r))) = (mn, mx, has)"
    by (simp add: r' tick_obstacles_frame ext)
  have lead: "leaderWorldY (fst (tick_room now rnd r)) = mn"
    and trail: "trailerWorldY (fst (tick_room now rnd r)) = mx"
    by (simp_all add: leaderWorldY_def trailerWorldY_def ext')
  have has: "has \<longleftrightarrow> players r \<noteq> []"
  proof (cases "players r = []")
    case True
    then have "world_extent (players r) = (0, 0, False)" by (simp add: world_extent_def)
    then show ?thesis using True ext' by (simp add: tick_room_extent)
  next
    case False
    then show ?thesis using ext' by (simp add: tick_room_extent world_extent_nonempty)
  qed
  have frame: "obstacles ?r2 = obstacles r" "lastSpawnWorldY ?r2 = lastSpawnWorldY r"
    by (simp_all add: tick_racing_frame tick_countdown_frame)
  from tick_obstacles_racing [OF racing, of rnd mn mx has]
  show ?thesis
    unfolding lead trail unfolding r' frame has by blast
qed

text \<open>
  C5 (amended). On a tick of a room with at least one player, the trailer is the player
  with the largest \<open>worldY\<close> and the buffer is 100 m at 2 px/m. When the room is racing
  in the tick's obstacle block, every obstacle whose \<open>worldY\<close> is not less than
  \<open>trailerWorldY + despawnBuffer\<close> is removed. In every other race state the tick
  leaves the obstacles as they are.
\<close>

theorem despawn_only_while_racing:
  assumes "players r \<noteq> []"
  shows "trailerWorldY (fst (tick_room now rnd r))
           = Max ((\<lambda>kp. worldY (snd kp)) ` set (players (fst (tick_room now rnd r))))
       \<and> despawnBufferPixels = 100 * 2
       \<and> (raceState (fst (tick_room now rnd r)) = RACING
            \<longrightarrow> stale_obstacles (fst (tick_room now rnd r)) = [])
       \<and> (raceState (fst (tick_room now rnd r)) \<noteq> RACING
            \<longrightarrow> obstacles (fst (tick_room now rnd r)) = obstacles r)"
proof -
  let ?r' = "fst (tick_room now rnd r)"
  have ne: "players ?r' \<noteq> []"
    using assms by (simp add: tick_room_players_nonempty)
  have trail: "trailerWorldY ?r' = Max ((\<lambda>kp. worldY (snd kp)) ` set (players ?r'))"
    by (simp add: trailerWorldY_def world_extent_nonempty [OF ne])
  have buf: "despawnBufferPixels = 100 * 2"
    by (simp add: despawnBufferPixels_def OBSTACLE_DESPAWN_DISTANCE_def PIXELS_PER_METER_def)
  have racing: "stale_obstacles ?r' = []" if "raceState ?r' = RACING"
  proof -
    from tick_room_obstacles_racing [OF that] obtain new where
      "obstacles ?r' = filter (\<lambda>ob. obs_worldY ob < trailerWorldY ?r' + despawnBufferPixels)
                          (obstacles r @ new)"
      by blast
    then show ?thesis
      unfolding stale_obstacles_def by (simp add: filter_empty_conv)
  qed
  have idle: "obstacles ?r' = obstacles r" if "raceState ?r' \<noteq> RACING"
  proof -
    have "raceState (tick_racing now (fst (tick_countdown now r))) \<noteq> RACING"
      using that by (simp add: fst_tick_room tick_obstacles_frame)
    then show ?thesis
      by (simp add: fst_tick_room tick_obstacles_idle tick_racing_frame tick_countdown_frame)
  qed
  have c3: "raceState ?r' = RACING \<longrightarrow> stale_obstacles ?r' = []"
    using racing by (rule impI)
  have c4: "raceState ?r' \<noteq> RACING \<longrightarrow> obstacles ?r' = obstacles r"
    using idle by (rule impI)
  show ?thesis
    by (intro conjI) (fact trail, fact buf, fact c3, fact c4)
qed

text \<open>One racing tick, on any room with a player.\<close>

lemma tick_window_bound:
  assumes "players r \<noteq> []" and "raceState (fst (tick_room now rnd r)) = RACING"
  shows "leaderWorldY (fst (tick_room now rnd r))
           = Min ((\<lambda>kp. worldY (snd kp)) ` set (players (fst (tick_room now rnd r))))
       \<and> trailerWorldY (fst (tick_room now rnd r))
           = Max ((\<lambda>kp. worldY (snd kp)) ` set (players (fst (tick_room now rnd r))))
       \<and> (\<forall>ob \<in> set (obstacles (fst (tick_room now rnd r))).
             obs_worldY ob < trailerWorldY (fst (tick_room now rnd r)) + despawnBufferPixels)
       \<and> lastSpawnWorldY (fst (tick_room now rnd r))
             \<le> leaderWorldY (fst (tick_room now rnd r)) - spawnAheadPixels
       \<and> (lastSpawnWorldY r = 0
            \<or> leaderWorldY (fst (tick_room now rnd r)) - spawnAheadPixels + spawnIntervalPixels
                 < lastSpawnWorldY r
           \<longrightarrow> (\<exists>ob \<in> set (obstacles (fst (tick_room now rnd r))).
                   leaderWorldY (fst (tick_room now rnd r)) - spawnAheadPixels < obs_worldY ob
                 \<and> obs_worldY ob < leaderWorldY (fst (tick_room now rnd r)))
               \<and> obstacles_ahead (fst (tick_room now rnd r)) \<noteq> [])"
proof -
  let ?r' = "fst (tick_room now rnd r)"
  let ?S = "(\<lambda>kp. worldY (snd kp)) ` set (players ?r')"
  have ne: "players ?r' \<noteq> []"
    using assms(1) by (simp add: tick_room_players_nonempty)
  have lead: "leaderWorldY ?r' = Min ?S" and trail: "trailerWorldY ?r' = Max ?S"
    by (simp_all add: leaderWorldY_def trailerWorldY_def world_extent_nonempty [OF ne])
  have fin: "finite ?S" by simp
  obtain kp kps where "players ?r' = kp # kps"
    using ne by (cases "players ?r'") simp_all
  then have y: "worldY (snd kp) \<in> ?S" by simp
  have "Min ?S \<le> worldY (snd kp)" and "worldY (snd kp) \<le> Max ?S"
    using fin y by (simp_all del: image_set)
  then have le: "leaderWorldY ?r' \<le> trailerWorldY ?r'"
    unfolding lead trail by linarith
  have ahead: "0 < spawnIntervalPixels" "spawnIntervalPixels < spawnAheadPixels"
    "0 < despawnBufferPixels"
    by (simp_all add: spawnAheadPixels_def spawnIntervalPixels_def despawnBufferPixels_def
        SPAWN_AHEAD_DISTANCE_def OBSTACLE_SPAWN_INTERVAL_def OBSTACLE_DESPAWN_DISTANCE_def
        PIXELS_PER_METER_def)
  from tick_room_obstacles_racing [OF assms(2)] obtain new where
    all: "obstacles ?r' = filter (\<lambda>ob. obs_worldY ob < trailerWorldY ?r' + despawnBufferPixels)
                            (obstacles r @ new)
        \<and> lastSpawnWorldY ?r' \<le> leaderWorldY ?r' - spawnAheadPixels
        \<and> (lastSpawnWorldY r = 0 \<and> players r \<noteq> []
                 \<or> leaderWorldY ?r' - spawnAheadPixels + spawnIntervalPixels < lastSpawnWorldY r
               \<longrightarrow> (\<exists>ob \<in> set (obstacles r @ new).
                      leaderWorldY ?r' - spawnAheadPixels < obs_worldY ob
                    \<and> obs_worldY ob \<le> leaderWorldY ?r' - spawnAheadPixels + spawnIntervalPixels))"
    by (rule exE)
  note obs = all [THEN conjunct1]
    and cur = all [THEN conjunct2, THEN conjunct1]
    and near = all [THEN conjunct2, THEN conjunct2]
  have window: "\<forall>ob \<in> set (obstacles ?r').
                  obs_worldY ob < trailerWorldY ?r' + despawnBufferPixels"
    unfolding obs by auto
  have found: "(\<exists>ob \<in> set (obstacles ?r').
                   leaderWorldY ?r' - spawnAheadPixels < obs_worldY ob
                 \<and> obs_worldY ob < leaderWorldY ?r')
               \<and> obstacles_ahead ?r' \<noteq> []"
    if "lastSpawnWorldY r = 0
        \<or> leaderWorldY ?r' - spawnAheadPixels + spawnIntervalPixels < lastSpawnWorldY r"
  proof -
    have pre: "lastSpawnWorldY r = 0 \<and> players r \<noteq> []
                 \<or> leaderWorldY ?r' - spawnAheadPixels + spawnIntervalPixels < lastSpawnWorldY r"
      using that assms(1) by blast
    from near pre have "\<exists>ob \<in> set (obstacles r @ new).
                      leaderWorldY ?r' - spawnAheadPixels < obs_worldY ob
                    \<and> obs_worldY ob \<le> leaderWorldY ?r' - spawnAheadPixels + spawnIntervalPixels"
      by (rule mp)
    then obtain ob where
      ob: "ob \<in> set (obstacles r @ new)"
        "leaderWorldY ?r' - spawnAheadPixels < obs_worldY ob"
        "obs_worldY ob \<le> leaderWorldY ?r' - spawnAheadPixels + spawnIntervalPixels"
      by (elim bexE conjE)
    have lt: "obs_worldY ob < leaderWorldY ?r'" using ob(3) ahead by linarith
    then have "obs_worldY ob < trailerWorldY ?r' + despawnBufferPixels"
      using le ahead by linarith
    then have mem: "ob \<in> set (obstacles ?r')"
      using ob(1) by (subst obs) simp
    then have "ob \<in> set (obstacles_ahead ?r')"
      using ob(2) lt by (simp add: obstacles_ahead_def)
    then have "obstacles_ahead ?r' \<noteq> []" by auto
    with mem ob(2) lt show ?thesis by blast
  qed
  have f: "lastSpawnWorldY r = 0
            \<or> leaderWorldY ?r' - spawnAheadPixels + spawnIntervalPixels < lastSpawnWorldY r
           \<longrightarrow> (\<exists>ob \<in> set (obstacles ?r').
                   leaderWorldY ?r' - spawnAheadPixels < obs_worldY ob
                 \<and> obs_worldY ob < leaderWorldY ?r')
               \<and> obstacles_ahead ?r' \<noteq> []"
    using found by (rule impI)
  show ?thesis
    by (intro conjI) (fact lead, fact trail, fact window, fact cur, fact f)
qed

text \<open>The example histories are histories of a fresh room.\<close>

lemma reachable_run: "reachable r \<Longrightarrow> reachable (fst (run rc es r))"
proof (induction es arbitrary: r)
  case Nil
  then show ?case by simp
next
  case (Cons e es)
  have "reachable (fst (room_step rc e r))" using Cons.prems by (rule reachable.step)
  then have "reachable (fst (run rc es (fst (room_step rc e r))))" by (rule Cons.IH)
  then show ?case by (simp only: fst_run_Cons)
qed

lemma reachable_lobby2: "reachable lobby2"
  unfolding lobby2_def by (rule reachable_run) (rule reachable.fresh)

lemma reachable_countdown2: "reachable countdown2"
  using reachable.step [OF reachable_lobby2, of "''ABCD''" "Ev_start_race ''a'' 1000"]
  by (simp add: countdown2_def)

lemma reachable_racing2: "reachable racing2"
  using reachable.step [OF reachable_countdown2, of "''ABCD''" "Ev_tick 4000 rnd0"]
  by (simp add: racing2_def)

lemma reachable_finished2: "reachable finished2"
  unfolding finished2_def by (rule reachable_run) (rule reachable_racing2)

lemma reachable_went_ahead: "reachable went_ahead"
  unfolding went_ahead_def by (rule reachable_run) (rule reachable_racing2)

lemma reachable_back_at_start: "reachable back_at_start"
  unfolding back_at_start_def by (rule reachable_run) (rule reachable_went_ahead)

theorem despawn_only_while_racing_witness:
  "players racing2 \<noteq> []
   \<and> raceState (fst (tick_room 5000 rnd0 racing2)) = RACING
   \<and> stale_obstacles (fst (tick_room 5000 rnd0 racing2)) = []
   \<and> players finished2 \<noteq> []
   \<and> raceState (fst (tick_room 9600 rnd0 finished2)) \<noteq> RACING
   \<and> obstacles (fst (tick_room 9600 rnd0 finished2)) = obstacles finished2"
proof -
  have p: "players racing2 \<noteq> []" by (simp add: racing2_val)
  have "raceState racing2 = RACING" by (simp add: racing2_val)
  then have a: "raceState (fst (tick_room 5000 rnd0 racing2)) = RACING"
    by (rule tick_room_racing_frame)
  have q: "players finished2 \<noteq> []" by (simp add: finished2_val)
  have "fst (tick_room 9600 rnd0 finished2) = finished2"
    by (rule tick_room_idle) (simp_all add: finished2_val)
  then have b: "raceState (fst (tick_room 9600 rnd0 finished2)) \<noteq> RACING"
    by (simp add: finished2_val)
  show ?thesis
    using despawn_only_while_racing [OF p, of 5000 rnd0]
      despawn_only_while_racing [OF q, of 9600 rnd0] p q a b
    by simp
qed

text \<open>
  C5 as stated fails: once both players have finished far ahead, the five obstacles of
  the first tick lie behind the trailer's despawn line, and a tick of the finished room
  keeps all of them.
\<close>

theorem stale_obstacles_survive_finished:
  "reachable finished2 \<and> raceState finished2 = FINISHED
   \<and> members finished2 \<noteq> [] \<and> players finished2 \<noteq> []
   \<and> trailerWorldY (fst (tick_room 9600 rnd0 finished2)) + despawnBufferPixels = - 1800
   \<and> map obs_worldY (stale_obstacles (fst (tick_room 9600 rnd0 finished2)))
        = [- 200, - 300, - 400, - 500, - 600]"
proof -
  have idle: "fst (tick_room 9600 rnd0 finished2) = finished2"
    by (rule tick_room_idle) (simp_all add: finished2_val)
  show ?thesis
    unfolding idle using reachable_finished2
    by (simp add: finished2_val stale_obstacles_def trailerWorldY_def eval_defs)
qed

text \<open>
  C9 as stated fails: both players report a position 1000 px ahead, a tick lays obstacles
  up to 1600 px and drops those behind, and both players report the start line again. The
  next racing tick spawns nothing, and the nearest obstacle is 900 px ahead of the leader.
\<close>

theorem no_obstacle_ahead_after_retreat:
  "reachable back_at_start \<and> raceState back_at_start = RACING
   \<and> players back_at_start \<noteq> [] \<and> lastSpawnWorldY back_at_start = - 1600
   \<and> raceState (fst (tick_room 6033 rnd0 back_at_start)) = RACING
   \<and> leaderWorldY (fst (tick_room 6033 rnd0 back_at_start)) = 0
   \<and> spawnAheadPixels = 600
   \<and> map obs_worldY (obstacles (fst (tick_room 6033 rnd0 back_at_start)))
        = [- 900, - 1000, - 1100, - 1200, - 1300, - 1400, - 1500, - 1600]
   \<and> obstacles_ahead (fst (tick_room 6033 rnd0 back_at_start)) = []"
  unfolding came_back_def [symmetric] using reachable_back_at_start
  by (simp add: came_back_val back_at_start_val obstacles_ahead_def leaderWorldY_def eval_defs)

subsection \<open>What each handler leaves alone\<close>

lemma join_in_room_frame:
  "gameSpeed (fst (join_in_room rc s nm r)) = gameSpeed r"
  "roadWidth (fst (join_in_room rc s nm r)) = roadWidth r"
  "raceState (fst (join_in_room rc s nm r)) = raceState r"
  "finishOrder (fst (join_in_room rc s nm r)) = finishOrder r"
  "creatorId (fst (join_in_room rc s nm r)) = creatorId r"
  "finish_positions (snd (join_in_room rc s nm r)) = []"
  by (simp_all add: join_in_room_def Let_def)

lemma set_race_distance_frame:
  "gameSpeed (fst (set_race_distance s parsed r)) = gameSpeed r"
  "roadWidth (fst (set_race_distance s parsed r)) = roadWidth r"
  "raceState (fst (set_race_distance s parsed r)) = raceState r"
  "finishOrder (fst (set_race_distance s parsed r)) = finishOrder r"
  "creatorId (fst (set_race_distance s parsed r)) = creatorId r"
  "players (fst (set_race_distance s parsed r)) = players r"
  "finish_positions (snd (set_race_distance s parsed r)) = []"
  by (simp_all add: set_race_distance_def Let_def)

lemma start_race_frame:
  "gameSpeed (fst (start_race s now r)) = gameSpeed r"
  "roadWidth (fst (start_race s now r)) = roadWidth r"
  "finishOrder (fst (start_race s now r)) = finishOrder r"
  "creatorId (fst (start_race s now r)) = creatorId r"
  "players (fst (start_race s now r)) = players r"
  "finish_positions (snd (start_race s now r)) = []"
  "raceState (fst (start_race s now r)) = raceState r
     \<or> raceState r = WAITING \<and> raceState (fst (start_race s now r)) = COUNTDOWN"
  by (simp_all add: start_race_def)

lemma toggle_pause_frame:
  "gameSpeed (fst (toggle_pause s now r)) = gameSpeed r"
  "roadWidth (fst (toggle_pause s now r)) = roadWidth r"
  "finishOrder (fst (toggle_pause s now r)) = finishOrder r"
  "creatorId (fst (toggle_pause s now r)) = creatorId r"
  "players (fst (toggle_pause s now r)) = players r"
  "finish_positions (snd (toggle_pause s now r)) = []"
  "raceState (fst (toggle_pause s now r)) = raceState r
     \<or> raceState r = RACING \<and> raceState (fst (toggle_pause s now r)) = PAUSED
     \<or> raceState r = PAUSED \<and> raceState (fst (toggle_pause s now r)) = RACING"
  by (simp_all add: toggle_pause_def Let_def)

lemma collision_frame:
  "gameSpeed (fst (collision s now r)) = gameSpeed r"
  "roadWidth (fst (collision s now r)) = roadWidth r"
  "raceState (fst (collision s now r)) = raceState r"
  "finishOrder (fst (collision s now r)) = finishOrder r"
  "creatorId (fst (collision s now r)) = creatorId r"
  "finish_positions (snd (collision s now r)) = []"
  by (simp_all add: collision_def split: option.splits)

lemma disconnect_frame:
  "gameSpeed (fst (disconnect s uname r)) = gameSpeed r"
  "roadWidth (fst (disconnect s uname r)) = roadWidth r"
  "raceState (fst (disconnect s uname r)) = raceState r"
  "finishOrder (fst (disconnect s uname r)) = finishOrder r"
  "creatorId (fst (disconnect s uname r)) = creatorId r"
  "finish_positions (snd (disconnect s uname r)) = []"
  by (simp_all add: disconnect_def Let_def)

lemma restart_game_frame:
  "creatorId (fst (restart_game s now r)) = creatorId r"
  "finish_positions (snd (restart_game s now r)) = []"
  "s \<noteq> creatorId r \<Longrightarrow> fst (restart_game s now r) = r"
  "s = creatorId r \<Longrightarrow> raceState (fst (restart_game s now r)) = WAITING"
  "s = creatorId r \<Longrightarrow> finishOrder (fst (restart_game s now r)) = []"
  "s = creatorId r \<Longrightarrow> gameSpeed (fst (restart_game s now r)) = BASE_GAME_SPEED"
  "s = creatorId r \<Longrightarrow> roadWidth (fst (restart_game s now r)) = BASE_ROAD_WIDTH"
  by (auto simp add: restart_game_def Let_def)

lemma player_update_frame:
  "gameSpeed (fst (player_update s d now r)) = gameSpeed r"
  "roadWidth (fst (player_update s d now r)) = roadWidth r"
  "creatorId (fst (player_update s d now r)) = creatorId r"
  by (simp_all add: player_update_def Let_def split: option.splits)

lemma player_update_raceState:
  "raceState (fst (player_update s d now r)) = raceState r
   \<or> raceState r = RACING \<and> raceState (fst (player_update s d now r)) = FINISHED
      \<and> list_all finished (obj_values (players (fst (player_update s d now r))))"
  by (simp add: player_update_def Let_def split: option.splits)

lemma player_update_idle:
  "raceState r \<noteq> RACING \<Longrightarrow> player_update s d now r = (r, [], None)"
  by (simp add: player_update_def split: option.splits)

lemma player_update_finishOrder:
  "finishOrder (fst (player_update s d now r)) = finishOrder r
     \<and> finish_positions (fst (snd (player_update s d now r))) = []
   \<or> finishOrder (fst (player_update s d now r)) = finishOrder r @ [s]
     \<and> finish_positions (fst (snd (player_update s d now r))) = [length (finishOrder r) + 1]
     \<and> raceState r = RACING"
  by (simp add: player_update_def Let_def split: option.splits)

lemma tick_countdown_state:
  "raceState (fst (tick_countdown now r)) = raceState r
   \<or> raceState r = COUNTDOWN \<and> raceState (fst (tick_countdown now r)) = RACING
      \<and> gameSpeed (fst (tick_countdown now r)) = BASE_GAME_SPEED"
  by (simp add: tick_countdown_def Let_def split: prod.splits)

lemma tick_countdown_gameSpeed:
  "gameSpeed (fst (tick_countdown now r)) = gameSpeed r
   \<or> gameSpeed (fst (tick_countdown now r)) = BASE_GAME_SPEED"
  by (simp add: tick_countdown_def Let_def split: prod.splits)

lemma tick_countdown_idle: "raceState r \<noteq> COUNTDOWN \<Longrightarrow> tick_countdown now r = (r, [])"
  by (simp add: tick_countdown_def)

lemma tick_countdown_positions: "finish_positions (snd (tick_countdown now r)) = []"
  by (simp add: tick_countdown_def Let_def split: prod.splits)

lemma finish_positions_append [simp]:
  "finish_positions (xs @ ys) = finish_positions xs @ finish_positions ys"
  by (induction xs) (auto split: msg.splits)

lemma tick_room_positions: "finish_positions (snd (tick_room now rnd r)) = []"
  using tick_countdown_positions [of now r]
  by (cases "tick_countdown now r") (simp add: tick_room_def Let_def)

lemma tick_room_frame:
  "finishOrder (fst (tick_room now rnd r)) = finishOrder r"
  "creatorId (fst (tick_room now rnd r)) = creatorId r"
  by (simp_all add: fst_tick_room tick_obstacles_frame tick_racing_frame tick_countdown_frame)


subsection \<open>Difficulty\<close>

lemma tick_racing_difficulty:
  assumes "difficulty_ok r"
  shows "difficulty_ok (tick_racing now r)"
    and "gameSpeed r \<le> gameSpeed (tick_racing now r)"
    and "roadWidth r \<le> roadWidth (tick_racing now r)"
  using assms
  by (auto simp add: difficulty_ok_def tick_racing_def Let_def consts_defs min_def)

lemma tick_room_difficulty:
  assumes "difficulty_ok r"
  shows "difficulty_ok (fst (tick_room now rnd r))"
proof -
  have "difficulty_ok (fst (tick_countdown now r))"
    using assms tick_countdown_gameSpeed [of now r]
    by (auto simp add: difficulty_ok_def tick_countdown_frame consts_defs)
  then have "difficulty_ok (tick_racing now (fst (tick_countdown now r)))"
    by (rule tick_racing_difficulty)
  then show ?thesis
    by (simp add: difficulty_ok_def fst_tick_room tick_obstacles_frame)
qed

lemma tick_room_difficulty_mono:
  assumes "difficulty_ok r" and "raceState r \<noteq> COUNTDOWN"
  shows "gameSpeed r \<le> gameSpeed (fst (tick_room now rnd r))"
    and "roadWidth r \<le> roadWidth (fst (tick_room now rnd r))"
  using tick_racing_difficulty(2,3) [OF assms(1), of now] assms(2)
  by (simp_all add: fst_tick_room tick_obstacles_frame tick_countdown_idle)

lemma room_step_difficulty:
  assumes "difficulty_ok r"
  shows "difficulty_ok (fst (room_step rc e r))"
proof (cases e)
  case (Ev_restart_game s now)
  show ?thesis
  proof (cases "s = creatorId r")
    case True
    then show ?thesis
      unfolding Ev_restart_game
      by (simp add: difficulty_ok_def restart_game_frame consts_defs)
  next
    case False
    then show ?thesis
      unfolding Ev_restart_game using assms by (simp add: restart_game_frame)
  qed
next
  case (Ev_tick now rnd)
  then show ?thesis using assms by (simp add: tick_room_difficulty)
next
  case (Ev_player_update s d now)
  then show ?thesis
    using assms player_update_frame [of s d now r]
    by (simp add: difficulty_ok_def split: prod.splits) (metis fst_conv)
qed (use assms in \<open>simp_all add: difficulty_ok_def join_in_room_frame set_race_distance_frame
      start_race_frame toggle_pause_frame collision_frame disconnect_frame\<close>)

lemma reachable_difficulty: "reachable r \<Longrightarrow> difficulty_ok r"
proof (induction rule: reachable.induct)
  case (fresh creator now)
  show ?case by (simp add: difficulty_ok_def new_room_def consts_defs)
next
  case (step r rc e)
  then show ?case by (simp add: room_step_difficulty)
qed

lemma room_step_difficulty_mono:
  assumes ok: "difficulty_ok r"
    and before: "raceState r = RACING \<or> raceState r = PAUSED"
    and after: "raceState (fst (room_step rc e r)) = RACING
                \<or> raceState (fst (room_step rc e r)) = PAUSED"
  shows "gameSpeed r \<le> gameSpeed (fst (room_step rc e r))
       \<and> roadWidth r \<le> roadWidth (fst (room_step rc e r))"
proof (cases e)
  case (Ev_restart_game s now)
  show ?thesis
  proof (cases "s = creatorId r")
    case True
    then show ?thesis
      using after unfolding Ev_restart_game by (simp add: restart_game_frame)
  next
    case False
    then show ?thesis unfolding Ev_restart_game by (simp add: restart_game_frame)
  qed
next
  case (Ev_tick now rnd)
  have "raceState r \<noteq> COUNTDOWN" using before by auto
  from tick_room_difficulty_mono [OF ok this, of now rnd]
  show ?thesis unfolding Ev_tick by simp
next
  case (Ev_player_update s d now)
  then show ?thesis
    using player_update_frame [of s d now r]
    by (simp split: prod.splits) (metis fst_conv order_refl)
qed (simp_all add: join_in_room_frame set_race_distance_frame
      start_race_frame toggle_pause_frame collision_frame disconnect_frame)


lemma transition_tick_speed:
  assumes "raceState r = COUNTDOWN" and "raceState (fst (tick_room now rnd r)) = RACING"
  shows "gameSpeed (fst (tick_countdown now r)) = BASE_GAME_SPEED"
    and "gameSpeed (fst (tick_room now rnd r)) = BASE_GAME_SPEED + SPEED_INCREMENT_PER_TICK"
proof -
  have "raceState (fst (tick_countdown now r)) = RACING"
    using assms(2) by (simp add: tick_room_raceState)
  with tick_countdown_state [of now r] assms(1)
  have c: "raceState (fst (tick_countdown now r)) = RACING"
    "gameSpeed (fst (tick_countdown now r)) = BASE_GAME_SPEED"
    by auto
  show "gameSpeed (fst (tick_countdown now r)) = BASE_GAME_SPEED" by (rule c(2))
  show "gameSpeed (fst (tick_room now rnd r)) = BASE_GAME_SPEED + SPEED_INCREMENT_PER_TICK"
    using c by (simp add: fst_tick_room tick_obstacles_frame tick_racing_def Let_def consts_defs)
qed

lemma countdown_transition:
  assumes "raceState q = COUNTDOWN"
  shows "raceState (fst (tick_room now rnd q)) = RACING
           \<longleftrightarrow> COUNTDOWN_SECONDS * 1000 \<le> now - num (countdownStartTime q)"
    and "raceState (fst (tick_room now rnd q)) \<noteq> RACING
           \<Longrightarrow> gameSpeed (fst (tick_room now rnd q)) = gameSpeed q"
proof -
  show "raceState (fst (tick_room now rnd q)) = RACING
           \<longleftrightarrow> COUNTDOWN_SECONDS * 1000 \<le> now - num (countdownStartTime q)"
    using assms
    by (simp add: tick_room_raceState tick_countdown_def Let_def split: prod.splits)
  assume "raceState (fst (tick_room now rnd q)) \<noteq> RACING"
  then have nr: "raceState (fst (tick_countdown now q)) \<noteq> RACING"
    by (simp add: tick_room_raceState)
  then have "\<not> COUNTDOWN_SECONDS * 1000 \<le> now - num (countdownStartTime q)"
    using assms by (auto simp add: tick_countdown_def Let_def split: prod.splits)
  then have "gameSpeed (fst (tick_countdown now q)) = gameSpeed q"
    using assms by (simp add: tick_countdown_def Let_def split: prod.splits)
  then show "gameSpeed (fst (tick_room now rnd q)) = gameSpeed q"
    using nr by (simp add: fst_tick_room tick_obstacles_frame tick_racing_def)
qed

text \<open>
  C6. In every state a room can reach, \<open>gameSpeed\<close> is at most \<open>MAX_GAME_SPEED\<close> (20)
  and \<open>roadWidth\<close> at most \<open>MAX_ROAD_WIDTH\<close> (400). A tick of a racing room leaves it
  racing and lowers neither; nor does any event between two ticks, as long as the room
  is racing or paused before and after it. For any room \<open>q\<close> that is counting down,
  whatever its speed: the tick turns it to racing exactly when the countdown has run out,
  the countdown block then sets \<open>gameSpeed\<close> to \<open>BASE_GAME_SPEED\<close> and the difficulty
  block of that same tick adds the first increment; a tick that does not start the race
  leaves \<open>gameSpeed\<close> as it was.
\<close>

theorem difficulty_caps:
  assumes "reachable r"
  shows "gameSpeed r \<le> MAX_GAME_SPEED \<and> MAX_GAME_SPEED = 20
       \<and> roadWidth r \<le> MAX_ROAD_WIDTH \<and> MAX_ROAD_WIDTH = 400
       \<and> (raceState r = RACING \<longrightarrow>
             raceState (fst (tick_room now rnd r)) = RACING
           \<and> gameSpeed r \<le> gameSpeed (fst (tick_room now rnd r))
           \<and> roadWidth r \<le> roadWidth (fst (tick_room now rnd r)))
       \<and> ((raceState r = RACING \<or> raceState r = PAUSED)
            \<and> (raceState (fst (room_step rc e r)) = RACING
                 \<or> raceState (fst (room_step rc e r)) = PAUSED) \<longrightarrow>
             gameSpeed r \<le> gameSpeed (fst (room_step rc e r))
           \<and> roadWidth r \<le> roadWidth (fst (room_step rc e r)))
       \<and> (raceState q = COUNTDOWN \<longrightarrow>
             (raceState (fst (tick_room now rnd q)) = RACING
                \<longleftrightarrow> COUNTDOWN_SECONDS * 1000 \<le> now - num (countdownStartTime q))
           \<and> (raceState (fst (tick_room now rnd q)) = RACING \<longrightarrow>
                 gameSpeed (fst (tick_countdown now q)) = BASE_GAME_SPEED
               \<and> gameSpeed (fst (tick_room now rnd q))
                   = BASE_GAME_SPEED + SPEED_INCREMENT_PER_TICK)
           \<and> (raceState (fst (tick_room now rnd q)) \<noteq> RACING \<longrightarrow>
                 gameSpeed (fst (tick_room now rnd q)) = gameSpeed q))"
proof -
  have ok: "difficulty_ok r" using assms by (rule reachable_difficulty)
  have caps: "gameSpeed r \<le> MAX_GAME_SPEED" "roadWidth r \<le> MAX_ROAD_WIDTH"
    using ok by (simp_all add: difficulty_ok_def)
  have maxima: "MAX_GAME_SPEED = 20" "MAX_ROAD_WIDTH = 400"
    by (simp_all add: consts_defs)
  have ticks: "raceState r = RACING \<longrightarrow>
             raceState (fst (tick_room now rnd r)) = RACING
           \<and> gameSpeed r \<le> gameSpeed (fst (tick_room now rnd r))
           \<and> roadWidth r \<le> roadWidth (fst (tick_room now rnd r))"
  proof
    assume racing: "raceState r = RACING"
    then have "raceState r \<noteq> COUNTDOWN" by simp
    from tick_room_difficulty_mono [OF ok this, of now rnd] tick_room_racing_frame(1) [OF racing]
    show "raceState (fst (tick_room now rnd r)) = RACING
           \<and> gameSpeed r \<le> gameSpeed (fst (tick_room now rnd r))
           \<and> roadWidth r \<le> roadWidth (fst (tick_room now rnd r))"
      by simp
  qed
  have steps: "(raceState r = RACING \<or> raceState r = PAUSED)
            \<and> (raceState (fst (room_step rc e r)) = RACING
                 \<or> raceState (fst (room_step rc e r)) = PAUSED) \<longrightarrow>
             gameSpeed r \<le> gameSpeed (fst (room_step rc e r))
           \<and> roadWidth r \<le> roadWidth (fst (room_step rc e r))"
    using room_step_difficulty_mono [OF ok] by blast
  have transition: "raceState q = COUNTDOWN \<longrightarrow>
             (raceState (fst (tick_room now rnd q)) = RACING
                \<longleftrightarrow> COUNTDOWN_SECONDS * 1000 \<le> now - num (countdownStartTime q))
           \<and> (raceState (fst (tick_room now rnd q)) = RACING \<longrightarrow>
                 gameSpeed (fst (tick_countdown now q)) = BASE_GAME_SPEED
               \<and> gameSpeed (fst (tick_room now rnd q))
                   = BASE_GAME_SPEED + SPEED_INCREMENT_PER_TICK)
           \<and> (raceState (fst (tick_room now rnd q)) \<noteq> RACING \<longrightarrow>
                 gameSpeed (fst (tick_room now rnd q)) = gameSpeed q)"
  proof (intro impI conjI)
    assume cd: "raceState q = COUNTDOWN"
    show "raceState (fst (tick_room now rnd q)) = RACING
                \<longleftrightarrow> COUNTDOWN_SECONDS * 1000 \<le> now - num (countdownStartTime q)"
      by (rule countdown_transition(1) [OF cd])
    show "gameSpeed (fst (tick_room now rnd q)) = gameSpeed q"
      if "raceState (fst (tick_room now rnd q)) \<noteq> RACING"
      using cd that by (rule countdown_transition(2))
    show "gameSpeed (fst (tick_countdown now q)) = BASE_GAME_SPEED"
      if "raceState (fst (tick_room now rnd q)) = RACING"
      using cd that by (rule transition_tick_speed(1))
    show "gameSpeed (fst (tick_room now rnd q)) = BASE_GAME_SPEED + SPEED_INCREMENT_PER_TICK"
      if "raceState (fst (tick_room now rnd q)) = RACING"
      using cd that by (rule transition_tick_speed(2))
  qed
  show ?thesis
    by (intro conjI) (fact caps maxima ticks steps transition)+
qed

theorem difficulty_caps_witness:
  "reachable racing2 \<and> raceState racing2 = RACING
   \<and> gameSpeed racing2 \<le> 20 \<and> roadWidth racing2 \<le> 400
   \<and> gameSpeed racing2 \<le> gameSpeed (fst (tick_room 5000 rnd0 racing2))
   \<and> roadWidth racing2 \<le> roadWidth (fst (tick_room 5000 rnd0 racing2))
   \<and> raceState fast_countdown = COUNTDOWN \<and> gameSpeed fast_countdown = 7
   \<and> raceState (fst (tick_room 4000 rnd0 fast_countdown)) = RACING
   \<and> gameSpeed (fst (tick_countdown 4000 fast_countdown)) = 2
   \<and> gameSpeed (fst (tick_room 4000 rnd0 fast_countdown)) = 2.0005
   \<and> raceState (fst (tick_room 2000 rnd0 fast_countdown)) \<noteq> RACING
   \<and> gameSpeed (fst (tick_room 2000 rnd0 fast_countdown)) = 7"
proof -
  have a: "raceState racing2 = RACING" by (simp add: racing2_val)
  have b: "raceState fast_countdown = COUNTDOWN" and b': "gameSpeed fast_countdown = 7"
    and st: "countdownStartTime fast_countdown = Some 1000"
    by (simp_all add: fast_countdown_def countdown2_val)
  note t1 = difficulty_caps [OF reachable_racing2, where now = 5000 and rnd = rnd0
      and rc = "''ABCD''" and e = "Ev_tick 5000 rnd0" and q = fast_countdown]
  note t2 = difficulty_caps [OF reachable_racing2, where now = 4000 and rnd = rnd0
      and rc = "''ABCD''" and e = "Ev_tick 4000 rnd0" and q = fast_countdown]
  note t3 = difficulty_caps [OF reachable_racing2, where now = 2000 and rnd = rnd0
      and rc = "''ABCD''" and e = "Ev_tick 2000 rnd0" and q = fast_countdown]
  note q2 = t2 [THEN conjunct2, THEN conjunct2, THEN conjunct2, THEN conjunct2,
          THEN conjunct2, THEN conjunct2, THEN mp, OF b]
  note q3 = t3 [THEN conjunct2, THEN conjunct2, THEN conjunct2, THEN conjunct2,
          THEN conjunct2, THEN conjunct2, THEN mp, OF b]
  have c1: "gameSpeed racing2 \<le> MAX_GAME_SPEED"
    by (rule t1 [THEN conjunct1])
  have c3: "roadWidth racing2 \<le> MAX_ROAD_WIDTH"
    by (rule t1 [THEN conjunct2, THEN conjunct2, THEN conjunct1])
  have c5: "raceState (fst (tick_room 5000 rnd0 racing2)) = RACING
           \<and> gameSpeed racing2 \<le> gameSpeed (fst (tick_room 5000 rnd0 racing2))
           \<and> roadWidth racing2 \<le> roadWidth (fst (tick_room 5000 rnd0 racing2))"
    by (rule t1 [THEN conjunct2, THEN conjunct2, THEN conjunct2, THEN conjunct2,
          THEN conjunct1, THEN mp, OF a])
  have c: "raceState (fst (tick_room 4000 rnd0 fast_countdown)) = RACING"
    using q2 [THEN conjunct1] by (simp add: st num_def COUNTDOWN_SECONDS_def)
  have d: "raceState (fst (tick_room 2000 rnd0 fast_countdown)) \<noteq> RACING"
    using q3 [THEN conjunct1] by (simp add: st num_def COUNTDOWN_SECONDS_def)
  have c7: "gameSpeed (fst (tick_countdown 4000 fast_countdown)) = BASE_GAME_SPEED
           \<and> gameSpeed (fst (tick_room 4000 rnd0 fast_countdown))
               = BASE_GAME_SPEED + SPEED_INCREMENT_PER_TICK"
    by (rule q2 [THEN conjunct2, THEN conjunct1, THEN mp, OF c])
  have c8: "gameSpeed (fst (tick_room 2000 rnd0 fast_countdown)) = gameSpeed fast_countdown"
    by (rule q3 [THEN conjunct2, THEN conjunct2, THEN mp, OF d])
  have w1: "gameSpeed racing2 \<le> 20" using c1 by (simp add: consts_defs)
  have w2: "roadWidth racing2 \<le> 400" using c3 by (simp add: consts_defs)
  have w3: "gameSpeed racing2 \<le> gameSpeed (fst (tick_room 5000 rnd0 racing2))"
    and w4: "roadWidth racing2 \<le> roadWidth (fst (tick_room 5000 rnd0 racing2))"
    using c5 by simp_all
  have w5: "gameSpeed (fst (tick_countdown 4000 fast_countdown)) = 2"
    and w6: "gameSpeed (fst (tick_room 4000 rnd0 fast_countdown)) = 2.0005"
    using c7 by (simp_all add: consts_defs)
  have w7: "gameSpeed (fst (tick_room 2000 rnd0 fast_countdown)) = 7"
    using c8 b' by simp
  show ?thesis
    by (intro conjI)
      (fact reachable_racing2 a w1 w2 w3 w4 b b' c w5 w6 d w7)+
qed

subsection \<open>Finishing order\<close>

lemma room_step_player_update:
  "fst (room_step rc (Ev_player_update s d now) r) = fst (player_update s d now r)"
  "snd (room_step rc (Ev_player_update s d now) r) = fst (snd (player_update s d now r))"
  by (simp_all split: prod.splits)

lemma room_step_creatorId: "creatorId (fst (room_step rc e r)) = creatorId r"
  by (cases e)
    (simp_all add: room_step_player_update join_in_room_frame set_race_distance_frame start_race_frame
      toggle_pause_frame player_update_frame restart_game_frame collision_frame
      disconnect_frame tick_room_frame del: room_step.simps(5))

lemma room_step_finish:
  assumes "\<not> host_restart (creatorId r) e"
  shows "\<exists>new. finishOrder (fst (room_step rc e r)) = finishOrder r @ new
             \<and> finish_positions (snd (room_step rc e r))
                 = [length (finishOrder r) + 1 ..< length (finishOrder r) + length new + 1]"
proof (cases e)
  case (Ev_player_update s d now)
  from player_update_finishOrder [of s d now r] show ?thesis
    unfolding Ev_player_update room_step_player_update
  proof (elim disjE conjE)
    assume "finishOrder (fst (player_update s d now r)) = finishOrder r"
      "finish_positions (fst (snd (player_update s d now r))) = []"
    then show "\<exists>new. finishOrder (fst (player_update s d now r)) = finishOrder r @ new
             \<and> finish_positions (fst (snd (player_update s d now r)))
                 = [length (finishOrder r) + 1 ..< length (finishOrder r) + length new + 1]"
      by (intro exI [of _ "[]"]) simp
  next
    assume "finishOrder (fst (player_update s d now r)) = finishOrder r @ [s]"
      "finish_positions (fst (snd (player_update s d now r))) = [length (finishOrder r) + 1]"
    then show "\<exists>new. finishOrder (fst (player_update s d now r)) = finishOrder r @ new
             \<and> finish_positions (fst (snd (player_update s d now r)))
                 = [length (finishOrder r) + 1 ..< length (finishOrder r) + length new + 1]"
      by (intro exI [of _ "[s]"]) simp
  qed
next
  case (Ev_restart_game s now)
  then have "s \<noteq> creatorId r" using assms by simp
  then show ?thesis
    unfolding Ev_restart_game by (intro exI [of _ "[]"]) (simp add: restart_game_frame)
qed (simp_all add: join_in_room_frame set_race_distance_frame start_race_frame
      toggle_pause_frame collision_frame disconnect_frame tick_room_frame tick_room_positions)

lemma snd_run_Cons:
  "snd (run rc (e # es) r) = snd (room_step rc e r) @ snd (run rc es (fst (room_step rc e r)))"
  by (simp split: prod.splits)

lemma upt_join:
  "[Suc a ..< Suc (a + m)] @ [Suc (a + m) ..< Suc (a + m + n)] = [Suc a ..< Suc (a + (m + n))]"
proof -
  have "[Suc a ..< Suc (a + m) + n] = [Suc a ..< Suc (a + m)] @ [Suc (a + m) ..< Suc (a + m) + n]"
    by (rule upt_add_eq_append) simp
  moreover have "Suc (a + m) + n = Suc (a + (m + n))" by simp
  moreover have "Suc (a + m) + n = Suc (a + m + n)" by simp
  ultimately show ?thesis by (simp only:)
qed

lemma run_finish:
  assumes "\<forall>e \<in> set es. \<not> host_restart (creatorId r) e"
  shows "\<exists>new. finishOrder (fst (run rc es r)) = finishOrder r @ new
             \<and> finish_positions (snd (run rc es r))
                 = [length (finishOrder r) + 1 ..< length (finishOrder r) + length new + 1]"
  using assms
proof (induction es arbitrary: r)
  case Nil
  show ?case by (intro exI [of _ "[]"]) simp
next
  case (Cons e es)
  let ?r1 = "fst (room_step rc e r)"
  have "\<not> host_restart (creatorId r) e" using Cons.prems by simp
  from room_step_finish [OF this, of rc] obtain new1 where
    s1: "finishOrder ?r1 = finishOrder r @ new1"
    and p1: "finish_positions (snd (room_step rc e r))
               = [length (finishOrder r) + 1 ..< length (finishOrder r) + length new1 + 1]"
    by (elim exE conjE)
  have "\<forall>e \<in> set es. \<not> host_restart (creatorId ?r1) e"
    using Cons.prems by (simp add: room_step_creatorId)
  from Cons.IH [OF this] obtain new2 where
    s2: "finishOrder (fst (run rc es ?r1)) = finishOrder ?r1 @ new2"
    and p2: "finish_positions (snd (run rc es ?r1))
               = [length (finishOrder ?r1) + 1 ..< length (finishOrder ?r1) + length new2 + 1]"
    by (elim exE conjE)
  let ?a = "length (finishOrder r)"
  show ?case
    unfolding fst_run_Cons snd_run_Cons finish_positions_append
    by (intro exI [of _ "new1 @ new2"]) (simp add: s1 s2 p1 p2 upt_join del: upt_Suc)
qed

lemma room_step_before_race:
  assumes "raceState (fst (room_step rc e r)) = WAITING
           \<or> raceState (fst (room_step rc e r)) = COUNTDOWN"
  shows "finishOrder (fst (room_step rc e r)) = []
         \<or> (raceState r = WAITING \<or> raceState r = COUNTDOWN)
            \<and> finishOrder (fst (room_step rc e r)) = finishOrder r"
proof (cases e)
  case (Ev_player_update s d now)
  from player_update_raceState [of s d now r] player_update_finishOrder [of s d now r] assms
  show ?thesis
    unfolding Ev_player_update room_step_player_update by auto
next
  case (Ev_restart_game s now)
  then show ?thesis
    using assms by (cases "s = creatorId r") (simp_all add: restart_game_frame)
next
  case (Ev_start_race s now)
  then show ?thesis
    using assms start_race_frame(7) [of s now r] by (auto simp add: start_race_frame(3))
next
  case (Ev_toggle_pause s now)
  then show ?thesis
    using assms toggle_pause_frame(7) [of s now r] by (auto simp add: toggle_pause_frame(3))
next
  case (Ev_tick now rnd)
  then show ?thesis
    using assms tick_countdown_state [of now r]
    by (auto simp add: tick_room_frame tick_room_raceState)
qed (use assms in \<open>simp_all add: join_in_room_frame set_race_distance_frame collision_frame
      disconnect_frame\<close>)

lemma reachable_before_race:
  "reachable r \<Longrightarrow> raceState r = WAITING \<or> raceState r = COUNTDOWN \<Longrightarrow> finishOrder r = []"
proof (induction rule: reachable.induct)
  case (fresh creator now)
  show ?case by (simp add: new_room_def)
next
  case (step r rc e)
  from room_step_before_race [OF step.prems] step.IH show ?case by auto
qed


lemma player_update_finishes:
  assumes "obj_get (players r) s = Some p" and "raceState r = RACING" and "\<not> finished p"
    and "real_of_int (raceDistance r) \<le> ud_distance d"
  shows "obj_get (players (fst (player_update s d now r))) s
           = Some (p\<lparr>x_pos := ud_x d,
                     worldY := (case ud_worldY d of Some wy \<Rightarrow> wy | None \<Rightarrow> worldY p),
                     distance := ud_distance d, stunned := ud_stunned d,
                     finished := True,
                     finishTime := Some (now - num (raceStartTime r)),
                     position := Some (length (finishOrder r) + 1)\<rparr>)"
    and "finishOrder (fst (player_update s d now r)) = finishOrder r @ [s]"
    and "finish_positions (fst (snd (player_update s d now r))) = [length (finishOrder r) + 1]"
  using assms
  by (simp_all add: player_update_def Let_def split: option.splits)

text \<open>
  C3. A \<open>player-update\<close> accepted while the room is racing, from a player that has not
  finished and reports a distance of at least the room's \<open>raceDistance\<close>, marks the
  player finished, sets its \<open>finishTime\<close> to \<open>now - raceStartTime\<close>, appends its id to
  \<open>finishOrder\<close>, sets its \<open>position\<close> to the new length of \<open>finishOrder\<close> and
  announces that position. Over any history of a room that starts before the race
  (waiting or counting down) and holds no restart by the creator, the positions announced
  are \<open>1, 2, ..., k\<close> in this order, \<open>k\<close> being the length of \<open>finishOrder\<close> at the
  end.
\<close>

theorem finish_positions_sequential:
  assumes "obj_get (players r) s = Some p" and "raceState r = RACING" and "\<not> finished p"
    and "real_of_int (raceDistance r) \<le> ud_distance d"
    and "raceStartTime r = Some t0"
    and "reachable r0" and "raceState r0 = WAITING \<or> raceState r0 = COUNTDOWN"
    and "\<forall>e \<in> set es. \<not> host_restart (creatorId r0) e"
  shows "(\<exists>p'. obj_get (players (fst (player_update s d now r))) s = Some p'
              \<and> finished p' \<and> finishTime p' = Some (now - t0)
              \<and> position p' = Some (length (finishOrder (fst (player_update s d now r)))))
       \<and> finishOrder (fst (player_update s d now r)) = finishOrder r @ [s]
       \<and> finish_positions (fst (snd (player_update s d now r))) = [length (finishOrder r) + 1]
       \<and> finish_positions (snd (run rc es r0))
           = [1 ..< length (finishOrder (fst (run rc es r0))) + 1]"
proof -
  note fin = player_update_finishes [OF assms(1-4), of now]
  have one: "\<exists>p'. obj_get (players (fst (player_update s d now r))) s = Some p'
              \<and> finished p' \<and> finishTime p' = Some (now - t0)
              \<and> position p' = Some (length (finishOrder (fst (player_update s d now r))))"
    unfolding fin using assms(5) by (simp add: num_def)
  have empty: "finishOrder r0 = []"
    using assms(6,7) by (rule reachable_before_race)
  from run_finish [OF assms(8), of rc] obtain new where
    "finishOrder (fst (run rc es r0)) = finishOrder r0 @ new"
    "finish_positions (snd (run rc es r0))
       = [length (finishOrder r0) + 1 ..< length (finishOrder r0) + length new + 1]"
    by (elim exE conjE)
  then have race: "finish_positions (snd (run rc es r0))
                    = [1 ..< length (finishOrder (fst (run rc es r0))) + 1]"
    unfolding empty by (simp del: upt_Suc)
  show ?thesis
    by (intro conjI) (fact one fin(2) fin(3) race)+
qed

lemma run_race2: "fst (run ''ABCD'' race2 lobby2) = finished2"
  unfolding race2_def finished2_def
  by (simp only: fst_run_Cons room_step.simps racing2_def countdown2_def)

theorem finish_positions_sequential_witness:
  "obj_get (players racing2) ''a'' \<noteq> None \<and> raceState racing2 = RACING
   \<and> real_of_int (raceDistance racing2) \<le> ud_distance crossing
   \<and> raceStartTime racing2 = Some 4000
   \<and> reachable lobby2 \<and> raceState lobby2 = WAITING
   \<and> finishOrder (fst (player_update ''a'' crossing 9000 racing2)) = [''a'']
   \<and> finish_positions (fst (snd (player_update ''a'' crossing 9000 racing2))) = [1]
   \<and> finish_positions (snd (run ''ABCD'' race2 lobby2)) = [1, 2]"
proof -
  obtain p where p: "obj_get (players racing2) ''a'' = Some p" and nf: "\<not> finished p"
    by (simp add: racing2_val obj_get_def)
  have h: "raceState racing2 = RACING"
    "real_of_int (raceDistance racing2) \<le> ud_distance crossing"
    "raceStartTime racing2 = Some 4000"
    by (simp_all add: racing2_val crossing_def)
  have w: "raceState lobby2 = WAITING \<or> raceState lobby2 = COUNTDOWN"
    and w': "raceState lobby2 = WAITING"
    and c: "creatorId lobby2 = ''a''"
    by (simp_all add: lobby2_val)
  have nr: "\<forall>e \<in> set race2. \<not> host_restart (creatorId lobby2) e"
    by (simp add: race2_def)
  have fo: "finishOrder racing2 = []" "finishOrder finished2 = [''a'', ''b'']"
    by (simp_all add: racing2_val finished2_val)
  note t = finish_positions_sequential [OF p h(1) nf h(2) h(3) reachable_lobby2 w nr,
      of 9000 "''ABCD''"]
  have a: "finishOrder (fst (player_update ''a'' crossing 9000 racing2)) = [''a'']"
    using t [THEN conjunct2, THEN conjunct1] by (simp add: fo)
  have b: "finish_positions (fst (snd (player_update ''a'' crossing 9000 racing2))) = [1]"
    using t [THEN conjunct2, THEN conjunct2, THEN conjunct1] by (simp add: fo)
  have "[1 ..< length [''a'', ''b''] + 1] = [1, 2::nat]"
    by (simp add: upt_rec)
  then have d: "finish_positions (snd (run ''ABCD'' race2 lobby2)) = [1, 2]"
    using t [THEN conjunct2, THEN conjunct2, THEN conjunct2] by (simp only: run_race2 fo)
  have e: "obj_get (players racing2) ''a'' \<noteq> None" using p by simp
  show ?thesis
    by (intro conjI) (fact e h reachable_lobby2 w' a b d)+
qed

subsection \<open>Finished rooms and finished players\<close>

lemma list_all_obj_set:
  "list_all P (obj_values ps) \<Longrightarrow> P v \<Longrightarrow> list_all P (obj_values (obj_set ps k v))"
  by (induction ps) (auto simp: obj_values_def)

lemma obj_get_list_all:
  "obj_get ps k = Some p \<Longrightarrow> list_all P (obj_values ps) \<Longrightarrow> P p"
  by (induction ps) (auto simp: obj_values_def obj_get_def split: if_splits)

lemma list_all_obj_delete:
  "list_all P (obj_values ps) \<Longrightarrow> list_all P (obj_values (obj_delete ps k))"
  by (induction ps) (auto simp: obj_values_def obj_delete_def)

lemma list_all_expire_stun:
  "list_all finished (obj_values ps)
     \<Longrightarrow> list_all finished (obj_values (map (\<lambda>(k, p). (k, expire_stun now p)) ps))"
  by (induction ps) (auto simp: obj_values_def expire_stun_def)

lemma collision_finished:
  assumes "list_all finished (obj_values (players r))"
  shows "list_all finished (obj_values (players (fst (collision s now r))))"
proof (cases "obj_get (players r) s")
  case None
  then show ?thesis using assms by (simp add: collision_def)
next
  case (Some p)
  then have "finished p" using assms by (rule obj_get_list_all)
  then show ?thesis
    using assms Some by (simp add: collision_def list_all_obj_set)
qed

lemma disconnect_finished:
  assumes "list_all finished (obj_values (players r))"
  shows "list_all finished (obj_values (players (fst (disconnect s uname r))))"
  using assms by (simp add: disconnect_def Let_def list_all_obj_delete)

lemma join_in_room_rejected:
  assumes "raceState r = COUNTDOWN \<or> raceState r = RACING \<or> raceState r = PAUSED"
  shows "join_in_room rc s nm r
           = (r, [(to_sender, Error ''Race already in progress. Wait for it to finish.'')])"
  using assms by (auto simp add: join_in_room_def)

lemma join_in_room_accepted:
  assumes "raceState r = WAITING \<or> raceState r = FINISHED"
  shows "members (fst (join_in_room rc s nm r)) = members r @ [(s, nm)]"
    and "obj_get (players (fst (join_in_room rc s nm r))) s
           = Some (new_player nm (length (members r)))"
    and "raceState (fst (join_in_room rc s nm r)) = raceState r"
  using assms by (auto simp add: join_in_room_def Let_def)

lemma join_in_room_finished:
  assumes "raceState r = FINISHED"
  shows "\<not> finished_inv (fst (join_in_room rc s nm r))"
proof
  assume inv: "finished_inv (fst (join_in_room rc s nm r))"
  have acc: "raceState r = WAITING \<or> raceState r = FINISHED" using assms by simp
  have "raceState (fst (join_in_room rc s nm r)) = FINISHED"
    using join_in_room_accepted(3) [OF acc] assms by simp
  with inv have "list_all finished (obj_values (players (fst (join_in_room rc s nm r))))"
    by (simp add: finished_inv_def)
  with join_in_room_accepted(2) [OF acc] have "finished (new_player nm (length (members r)))"
    by (rule obj_get_list_all)
  then show False by (simp add: new_player_def Let_def)
qed

lemma tick_room_finished:
  assumes "finished_inv r"
  shows "finished_inv (fst (tick_room now rnd r))"
proof (cases "raceState r = FINISHED")
  case True
  then have "fst (tick_room now rnd r) = r" by (intro tick_room_idle) simp_all
  then show ?thesis using assms by simp
next
  case False
  with tick_countdown_state [of now r]
  have "raceState (fst (tick_room now rnd r)) \<noteq> FINISHED"
    by (auto simp add: tick_room_raceState)
  then show ?thesis by (simp add: finished_inv_def)
qed

lemma room_step_finished_inv:
  assumes inv: "finished_inv r" and nj: "\<not> (is_join e \<and> raceState r = FINISHED)"
  shows "finished_inv (fst (room_step rc e r))"
proof (cases e)
  case (Ev_join s nm)
  then have nf: "raceState r \<noteq> FINISHED" using nj by simp
  then show ?thesis
    unfolding Ev_join by (simp add: finished_inv_def join_in_room_frame)
next
  case (Ev_set_race_distance s parsed)
  then show ?thesis
    using inv by (simp add: finished_inv_def set_race_distance_frame)
next
  case (Ev_start_race s now)
  then show ?thesis
    using inv start_race_frame(7) [of s now r]
    by (auto simp add: finished_inv_def start_race_frame(5))
next
  case (Ev_toggle_pause s now)
  then show ?thesis
    using inv toggle_pause_frame(7) [of s now r]
    by (auto simp add: finished_inv_def toggle_pause_frame(5))
next
  case (Ev_player_update s d now)
  show ?thesis
  proof (cases "raceState r = RACING")
    case True
    with player_update_raceState [of s d now r] show ?thesis
      unfolding Ev_player_update room_step_player_update by (auto simp add: finished_inv_def)
  next
    case False
    then show ?thesis
      unfolding Ev_player_update room_step_player_update
      using inv by (simp add: player_update_idle)
  qed
next
  case (Ev_restart_game s now)
  then show ?thesis
    using inv by (cases "s = creatorId r") (simp_all add: finished_inv_def restart_game_frame)
next
  case (Ev_collision s now)
  then show ?thesis
    using inv by (simp add: finished_inv_def collision_frame collision_finished)
next
  case (Ev_disconnect s uname)
  then show ?thesis
    using inv by (simp add: finished_inv_def disconnect_frame disconnect_finished)
next
  case (Ev_tick now rnd)
  then show ?thesis using inv by (simp add: tick_room_finished)
qed

text \<open>
  C4 (amended). A fresh room satisfies "\<open>raceState = finished\<close> implies every player has
  \<open>finished = true\<close>", the move to the finished state establishes it, and every
  operation preserves it except a \<open>join-room\<close> accepted while the room is finished: such
  a join adds a player with \<open>finished = false\<close> and leaves the room finished. Joins are
  accepted in the waiting and finished states and rejected, with an error to the sender
  and no change, while counting down, racing or paused.
\<close>

theorem finished_inv_except_join:
  assumes "finished_inv r" and "\<not> (is_join e \<and> raceState r = FINISHED)"
  shows "finished_inv (fst (room_step rc e r))
       \<and> finished_inv (new_room creator t)
       \<and> (raceState r = COUNTDOWN \<or> raceState r = RACING \<or> raceState r = PAUSED \<longrightarrow>
            join_in_room rc s nm r
              = (r, [(to_sender, Error ''Race already in progress. Wait for it to finish.'')]))
       \<and> (raceState r = WAITING \<or> raceState r = FINISHED \<longrightarrow>
            members (fst (join_in_room rc s nm r)) = members r @ [(s, nm)]
          \<and> obj_get (players (fst (join_in_room rc s nm r))) s
              = Some (new_player nm (length (members r)))
          \<and> raceState (fst (join_in_room rc s nm r)) = raceState r)
       \<and> (raceState r = FINISHED \<longrightarrow> \<not> finished_inv (fst (join_in_room rc s nm r)))"
proof -
  have a: "finished_inv (fst (room_step rc e r))"
    using assms by (rule room_step_finished_inv)
  have b: "finished_inv (new_room creator t)"
    by (simp add: finished_inv_def new_room_def)
  have c: "raceState r = COUNTDOWN \<or> raceState r = RACING \<or> raceState r = PAUSED \<longrightarrow>
            join_in_room rc s nm r
              = (r, [(to_sender, Error ''Race already in progress. Wait for it to finish.'')])"
    using join_in_room_rejected by (rule impI)
  have d: "raceState r = WAITING \<or> raceState r = FINISHED \<longrightarrow>
            members (fst (join_in_room rc s nm r)) = members r @ [(s, nm)]
          \<and> obj_get (players (fst (join_in_room rc s nm r))) s
              = Some (new_player nm (length (members r)))
          \<and> raceState (fst (join_in_room rc s nm r)) = raceState r"
    using join_in_room_accepted by (intro impI conjI)
  have e: "raceState r = FINISHED \<longrightarrow> \<not> finished_inv (fst (join_in_room rc s nm r))"
    using join_in_room_finished by (rule impI)
  show ?thesis
    by (intro conjI) (fact a b c d e)+
qed

theorem finished_inv_except_join_witness:
  "finished_inv finished2 \<and> raceState finished2 = FINISHED
   \<and> finished_inv (fst (room_step ''ABCD'' (Ev_disconnect ''b'' (Some ''Bo'')) finished2))
   \<and> members (fst (join_in_room ''ABCD'' ''c'' ''Cy'' finished2))
        = members finished2 @ [(''c'', ''Cy'')]
   \<and> \<not> finished_inv (fst (join_in_room ''ABCD'' ''c'' ''Cy'' finished2))"
proof -
  have inv: "finished_inv finished2" and fin: "raceState finished2 = FINISHED"
    by (simp_all add: finished2_val finished_inv_def obj_values_def)
  have nj: "\<not> (is_join (Ev_disconnect ''b'' (Some ''Bo'')) \<and> raceState finished2 = FINISHED)"
    by simp
  note t = finished_inv_except_join [OF inv nj, of "''ABCD''" "''a''" 0 "''c''" "''Cy''"]
  have a: "finished_inv (fst (room_step ''ABCD'' (Ev_disconnect ''b'' (Some ''Bo'')) finished2))"
    by (rule t [THEN conjunct1])
  have b: "members (fst (join_in_room ''ABCD'' ''c'' ''Cy'' finished2))
             = members finished2 @ [(''c'', ''Cy'')]"
    using t [THEN conjunct2, THEN conjunct2, THEN conjunct2, THEN conjunct1] fin by simp
  have c: "\<not> finished_inv (fst (join_in_room ''ABCD'' ''c'' ''Cy'' finished2))"
    using t [THEN conjunct2, THEN conjunct2, THEN conjunct2, THEN conjunct2] fin by simp
  show ?thesis
    by (intro conjI) (fact inv fin a b c)+
qed

text \<open>
  C4 as stated fails: after both players have finished, a third socket joins; the room is
  still finished and its new player is not.
\<close>

theorem join_breaks_finished_invariant:
  "reachable finished2 \<and> raceState finished2 = FINISHED \<and> finished_inv finished2
   \<and> reachable (fst (room_step ''ABCD'' (Ev_join ''c'' ''Cy'') finished2))
   \<and> raceState (fst (room_step ''ABCD'' (Ev_join ''c'' ''Cy'') finished2)) = FINISHED
   \<and> map fst (players (fst (room_step ''ABCD'' (Ev_join ''c'' ''Cy'') finished2)))
        = [''a'', ''b'', ''c'']
   \<and> map finished (obj_values (players (fst (room_step ''ABCD'' (Ev_join ''c'' ''Cy'') finished2))))
        = [True, True, False]
   \<and> \<not> finished_inv (fst (room_step ''ABCD'' (Ev_join ''c'' ''Cy'') finished2))"
proof -
  have r: "reachable (fst (room_step ''ABCD'' (Ev_join ''c'' ''Cy'') finished2))"
    using reachable_finished2 by (rule reachable.step)
  show ?thesis
    using r reachable_finished2
    by (simp add: finished2_val finished_inv_def eval_defs)
qed

subsection \<open>Obstacles ahead of the leader\<close>

lemma spawn_consts:
  "spawnIntervalPixels = 100" "spawnAheadPixels = 600" "despawnBufferPixels = 200"
  by (simp_all add: spawnAheadPixels_def spawnIntervalPixels_def despawnBufferPixels_def
      consts_defs)

lemma spawn_loop_laid:
  assumes "(\<exists>ob \<in> set obs. obs_worldY ob = c)
             \<and> (\<exists>ob \<in> set obs. obs_worldY ob = c + spawnIntervalPixels)
           \<or> thr < c \<and> (\<exists>ob \<in> set obs. obs_worldY ob = c)
           \<or> thr + spawnIntervalPixels < c"
  shows "case spawn_loop rnd thr (k, c, n, obs) of
     (k', c', n', obs') \<Rightarrow>
        (\<exists>ob \<in> set obs'. obs_worldY ob = c')
      \<and> (\<exists>ob \<in> set obs'. obs_worldY ob = c' + spawnIntervalPixels)
      \<and> (c' = c \<and> c \<le> thr \<or> thr - spawnIntervalPixels < c')"
  using assms
proof (induction rnd thr "(k, c, n, obs)" arbitrary: k c n obs rule: spawn_loop.induct)
  case (1 rnd thr k c n obs)
  show ?case
  proof (cases "thr < c")
    case False
    have "spawn_loop rnd thr (k, c, n, obs) = (k, c, n, obs)"
      using False by (simp add: spawn_loop.simps)
    moreover have "(\<exists>ob \<in> set obs. obs_worldY ob = c)
             \<and> (\<exists>ob \<in> set obs. obs_worldY ob = c + spawnIntervalPixels)"
      using "1.prems" False by (auto simp: spawn_consts)
    ultimately show ?thesis using False by simp
  next
    case True
    let ?c = "c - spawnIntervalPixels"
    let ?ob = "\<lparr> obs_id = n, obs_x = obstacleX (rnd k) (rnd (k + 1)), obs_worldY = ?c,
                 obs_distance = \<bar>?c\<bar> / PIXELS_PER_METER \<rparr>"
    have unf: "spawn_loop rnd thr (k, c, n, obs)
                 = spawn_loop rnd thr (k + 2, ?c, n + 1, obs @ [?ob])"
      using True by (simp add: spawn_loop.simps [of rnd thr k c] Let_def)
    have pre: "(\<exists>ob \<in> set (obs @ [?ob]). obs_worldY ob = ?c)
             \<and> (\<exists>ob \<in> set (obs @ [?ob]). obs_worldY ob = ?c + spawnIntervalPixels)
           \<or> thr < ?c \<and> (\<exists>ob \<in> set (obs @ [?ob]). obs_worldY ob = ?c)
           \<or> thr + spawnIntervalPixels < ?c"
    proof (cases "\<exists>ob \<in> set obs. obs_worldY ob = c")
      case True
      then have "\<exists>ob \<in> set (obs @ [?ob]). obs_worldY ob = ?c + spawnIntervalPixels" by auto
      moreover have "\<exists>ob \<in> set (obs @ [?ob]). obs_worldY ob = ?c" by simp
      ultimately show ?thesis by blast
    next
      case False
      then have "thr + spawnIntervalPixels < c" using "1.prems" by blast
      then have "thr < ?c" by simp
      moreover have "\<exists>ob \<in> set (obs @ [?ob]). obs_worldY ob = ?c" by simp
      ultimately show ?thesis by blast
    qed
    obtain k' c' n' obs' where res:
      "spawn_loop rnd thr (k + 2, ?c, n + 1, obs @ [?ob]) = (k', c', n', obs')"
      by (cases "spawn_loop rnd thr (k + 2, ?c, n + 1, obs @ [?ob])") auto
    from "1.hyps" [OF True refl refl pre] res
    have ih: "\<exists>ob \<in> set obs'. obs_worldY ob = c'"
      "\<exists>ob \<in> set obs'. obs_worldY ob = c' + spawnIntervalPixels"
      "c' = ?c \<and> ?c \<le> thr \<or> thr - spawnIntervalPixels < c'"
      by simp_all
    have "thr - spawnIntervalPixels < c'" using ih(3) True by auto
    then show ?thesis
      unfolding unf res using ih(1,2) by simp
  qed
qed


lemma world_extent_shape:
  assumes "world_extent ps = (mn, mx, has)"
  shows "mn \<le> mx" and "\<not> has \<Longrightarrow> mn = 0"
proof -
  show "mn \<le> mx"
  proof (cases ps)
    case Nil
    then show ?thesis using assms by (simp add: world_extent_def)
  next
    case (Cons kp kps)
    let ?S = "(\<lambda>kp. worldY (snd kp)) ` set ps"
    have ne: "ps \<noteq> []" using Cons by simp
    have fin: "finite ?S" by simp
    have y: "worldY (snd kp) \<in> ?S" using Cons by simp
    have "Min ?S \<le> worldY (snd kp)" and "worldY (snd kp) \<le> Max ?S"
      using fin y by (simp_all del: image_set)
    then show ?thesis
      using assms world_extent_nonempty [OF ne] by simp
  qed
  show "mn = 0" if "\<not> has"
  proof (cases ps)
    case Nil
    then show ?thesis using assms by (simp add: world_extent_def)
  next
    case (Cons kp kps)
    then have "ps \<noteq> []" by simp
    from world_extent_nonempty [OF this] assms that show ?thesis by simp
  qed
qed

lemma cursor_laid_iff:
  "cursor_laid r \<longleftrightarrow>
     (lastSpawnWorldY r = 0
      \<or> (\<exists>ob \<in> set (obstacles r). obs_worldY ob = lastSpawnWorldY r)
        \<and> (\<exists>ob \<in> set (obstacles r). obs_worldY ob = lastSpawnWorldY r + spawnIntervalPixels))"
  by (simp add: cursor_laid_def list_ex_iff)

text \<open>The obstacle block on a racing room whose cursor is laid.\<close>

lemma tick_obstacles_laid:
  assumes racing: "raceState r = RACING" and laid: "cursor_laid r"
    and le: "mn \<le> mx" and none: "\<not> has \<Longrightarrow> mn = 0"
  shows "(\<exists>ob \<in> set (obstacles (tick_obstacles rnd (mn, mx, has) r)).
            obs_worldY ob = lastSpawnWorldY (tick_obstacles rnd (mn, mx, has) r))
       \<and> (\<exists>ob \<in> set (obstacles (tick_obstacles rnd (mn, mx, has) r)).
            obs_worldY ob = lastSpawnWorldY (tick_obstacles rnd (mn, mx, has) r)
                             + spawnIntervalPixels)
       \<and> lastSpawnWorldY (tick_obstacles rnd (mn, mx, has) r) \<le> mn - spawnAheadPixels
       \<and> (lastSpawnWorldY (tick_obstacles rnd (mn, mx, has) r) = lastSpawnWorldY r
             \<and> lastSpawnWorldY r \<noteq> 0
           \<or> mn - spawnAheadPixels - spawnIntervalPixels
                < lastSpawnWorldY (tick_obstacles rnd (mn, mx, has) r))"
proof -
  let ?cursor = "if lastSpawnWorldY r = 0 \<and> has then mn - spawnIntervalPixels
                 else lastSpawnWorldY r"
  let ?thr = "mn - spawnAheadPixels"
  obtain k' c' n' obs' where res:
    "spawn_loop rnd ?thr (0, ?cursor, nextObstacleId r, obstacles r) = (k', c', n', obs')"
    by (cases "spawn_loop rnd ?thr (0, ?cursor, nextObstacleId r, obstacles r)") auto
  have pre: "(\<exists>ob \<in> set (obstacles r). obs_worldY ob = ?cursor)
             \<and> (\<exists>ob \<in> set (obstacles r). obs_worldY ob = ?cursor + spawnIntervalPixels)
           \<or> ?thr < ?cursor \<and> (\<exists>ob \<in> set (obstacles r). obs_worldY ob = ?cursor)
           \<or> ?thr + spawnIntervalPixels < ?cursor"
  proof (cases "lastSpawnWorldY r = 0")
    case True
    have "?thr + spawnIntervalPixels < ?cursor"
      using True none by (cases has) (simp_all add: spawn_consts)
    then show ?thesis by blast
  next
    case False
    then show ?thesis using laid by (simp add: cursor_laid_iff)
  qed
  from spawn_loop_laid [OF pre, where rnd = rnd and k = 0 and n = "nextObstacleId r"] res
  have p: "\<exists>ob \<in> set obs'. obs_worldY ob = c'"
    "\<exists>ob \<in> set obs'. obs_worldY ob = c' + spawnIntervalPixels"
    "c' = ?cursor \<and> ?cursor \<le> ?thr \<or> ?thr - spawnIntervalPixels < c'"
    by simp_all
  from spawn_loop_props [where rnd = rnd and thr = ?thr and k = 0 and c = ?cursor
      and n = "nextObstacleId r" and obs = "obstacles r"] res
  have fin: "c' \<le> ?thr" by simp
  have t: "tick_obstacles rnd (mn, mx, has) r =
             r\<lparr>lastSpawnWorldY := c', nextObstacleId := n',
               obstacles := filter (\<lambda>ob. obs_worldY ob < mx + despawnBufferPixels) obs'\<rparr>"
    using racing res by (simp add: tick_obstacles_def Let_def)
  have keep: "obs_worldY ob < mx + despawnBufferPixels"
    if "obs_worldY ob = c' \<or> obs_worldY ob = c' + spawnIntervalPixels" for ob
    using that fin le by (auto simp: spawn_consts)
  from p(1) obtain o1 where o1: "o1 \<in> set obs'" "obs_worldY o1 = c'" by blast
  from p(2) obtain o2 where o2: "o2 \<in> set obs'" "obs_worldY o2 = c' + spawnIntervalPixels"
    by blast
  have a: "\<exists>ob \<in> set (filter (\<lambda>ob. obs_worldY ob < mx + despawnBufferPixels) obs').
             obs_worldY ob = c'"
    using o1 keep [of o1] by (intro bexI [of _ o1]) simp_all
  have b: "\<exists>ob \<in> set (filter (\<lambda>ob. obs_worldY ob < mx + despawnBufferPixels) obs').
             obs_worldY ob = c' + spawnIntervalPixels"
    using o2 keep [of o2] by (intro bexI [of _ o2]) simp_all
  have c: "c' = lastSpawnWorldY r \<and> lastSpawnWorldY r \<noteq> 0
           \<or> ?thr - spawnIntervalPixels < c'"
  proof (cases "lastSpawnWorldY r = 0")
    case True
    have "?thr < ?cursor"
      using True none by (cases has) (simp_all add: spawn_consts)
    with p(3) show ?thesis by auto
  next
    case False
    with p(3) show ?thesis by auto
  qed
  show ?thesis
    unfolding t using a b fin c by simp
qed

lemma tick_room_laid:
  assumes laid: "cursor_laid r" and racing: "raceState (fst (tick_room now rnd r)) = RACING"
  shows "(\<exists>ob \<in> set (obstacles (fst (tick_room now rnd r))).
            obs_worldY ob = lastSpawnWorldY (fst (tick_room now rnd r)))
       \<and> (\<exists>ob \<in> set (obstacles (fst (tick_room now rnd r))).
            obs_worldY ob = lastSpawnWorldY (fst (tick_room now rnd r)) + spawnIntervalPixels)
       \<and> lastSpawnWorldY (fst (tick_room now rnd r))
            \<le> leaderWorldY (fst (tick_room now rnd r)) - spawnAheadPixels
       \<and> (lastSpawnWorldY (fst (tick_room now rnd r)) = lastSpawnWorldY r
             \<and> lastSpawnWorldY r \<noteq> 0
           \<or> leaderWorldY (fst (tick_room now rnd r)) - spawnAheadPixels - spawnIntervalPixels
                < lastSpawnWorldY (fst (tick_room now rnd r)))"
proof -
  let ?r2 = "tick_racing now (fst (tick_countdown now r))"
  obtain mn mx has where ext: "world_extent (players ?r2) = (mn, mx, has)"
    by (cases "world_extent (players ?r2)") auto
  have r': "fst (tick_room now rnd r) = tick_obstacles rnd (mn, mx, has) ?r2"
    by (simp add: fst_tick_room ext)
  have rac: "raceState ?r2 = RACING"
    using racing by (simp add: r' tick_obstacles_frame)
  have lead: "leaderWorldY (fst (tick_room now rnd r)) = mn"
    by (simp add: leaderWorldY_def r' tick_obstacles_frame ext)
  have frame: "obstacles ?r2 = obstacles r" "lastSpawnWorldY ?r2 = lastSpawnWorldY r"
    by (simp_all add: tick_racing_frame tick_countdown_frame)
  have laid2: "cursor_laid ?r2"
    using laid by (simp add: cursor_laid_def frame)
  from tick_obstacles_laid [OF rac laid2 world_extent_shape [OF ext], where rnd = rnd]
  show ?thesis
    unfolding lead unfolding r' frame by simp
qed

lemma tick_room_unchanged_obstacles:
  assumes "raceState (fst (tick_room now rnd r)) \<noteq> RACING"
  shows "obstacles (fst (tick_room now rnd r)) = obstacles r"
    and "lastSpawnWorldY (fst (tick_room now rnd r)) = lastSpawnWorldY r"
proof -
  have "raceState (tick_racing now (fst (tick_countdown now r))) \<noteq> RACING"
    using assms by (simp add: fst_tick_room tick_obstacles_frame)
  then show "obstacles (fst (tick_room now rnd r)) = obstacles r"
    and "lastSpawnWorldY (fst (tick_room now rnd r)) = lastSpawnWorldY r"
    by (simp_all add: fst_tick_room tick_obstacles_idle tick_racing_frame tick_countdown_frame)
qed

lemma tick_room_leader: "leaderWorldY (fst (tick_room now rnd r)) = leaderWorldY r"
  by (simp add: leaderWorldY_def tick_room_extent)

lemma tick_room_cursor_laid:
  assumes "cursor_laid r"
  shows "cursor_laid (fst (tick_room now rnd r))"
proof (cases "raceState (fst (tick_room now rnd r)) = RACING")
  case True
  from tick_room_laid [OF assms True] show ?thesis
    by (simp add: cursor_laid_iff)
next
  case False
  then show ?thesis
    using assms by (simp add: cursor_laid_def tick_room_unchanged_obstacles)
qed

lemma tick_room_cursor_near:
  assumes "cursor_laid r" and "cursor_near r"
  shows "cursor_near (fst (tick_room now rnd r))"
proof (cases "raceState (fst (tick_room now rnd r)) = RACING")
  case True
  from tick_room_laid [OF assms(1) True]
  have "lastSpawnWorldY (fst (tick_room now rnd r)) = lastSpawnWorldY r
          \<and> lastSpawnWorldY r \<noteq> 0
        \<or> leaderWorldY (fst (tick_room now rnd r)) - spawnAheadPixels - spawnIntervalPixels
             < lastSpawnWorldY (fst (tick_room now rnd r))"
    by simp
  then show ?thesis
    using assms(2) by (auto simp add: cursor_near_def tick_room_leader)
next
  case False
  then show ?thesis
    using assms(2) by (simp add: cursor_near_def tick_room_unchanged_obstacles tick_room_leader)
qed


lemma handlers_keep_obstacles:
  "obstacles (fst (join_in_room rc s nm r)) = obstacles r"
  "lastSpawnWorldY (fst (join_in_room rc s nm r)) = lastSpawnWorldY r"
  "obstacles (fst (set_race_distance s parsed r)) = obstacles r"
  "lastSpawnWorldY (fst (set_race_distance s parsed r)) = lastSpawnWorldY r"
  "obstacles (fst (start_race s now r)) = obstacles r"
  "lastSpawnWorldY (fst (start_race s now r)) = lastSpawnWorldY r"
  "obstacles (fst (toggle_pause s now r)) = obstacles r"
  "lastSpawnWorldY (fst (toggle_pause s now r)) = lastSpawnWorldY r"
  "obstacles (fst (player_update s d now r)) = obstacles r"
  "lastSpawnWorldY (fst (player_update s d now r)) = lastSpawnWorldY r"
  "obstacles (fst (collision s now r)) = obstacles r"
  "lastSpawnWorldY (fst (collision s now r)) = lastSpawnWorldY r"
  "obstacles (fst (disconnect s uname r)) = obstacles r"
  "lastSpawnWorldY (fst (disconnect s uname r)) = lastSpawnWorldY r"
  by (simp_all add: join_in_room_def set_race_distance_def start_race_def toggle_pause_def
      player_update_def collision_def disconnect_def Let_def split: option.splits)

lemma restart_game_cursor:
  "s = creatorId r \<Longrightarrow> lastSpawnWorldY (fst (restart_game s now r)) = 0"
  by (simp add: restart_game_def Let_def)

lemma room_step_cursor:
  "lastSpawnWorldY (fst (room_step rc e r)) = 0
   \<or> (\<exists>now rnd. e = Ev_tick now rnd)
   \<or> lastSpawnWorldY (fst (room_step rc e r)) = lastSpawnWorldY r
      \<and> obstacles (fst (room_step rc e r)) = obstacles r"
proof (cases e)
  case (Ev_restart_game s now)
  then show ?thesis
    by (cases "s = creatorId r") (simp_all add: restart_game_cursor restart_game_frame)
next
  case (Ev_player_update s d now)
  then show ?thesis
    unfolding Ev_player_update room_step_player_update by (simp add: handlers_keep_obstacles)
qed (simp_all add: handlers_keep_obstacles)

lemma room_step_cursor_laid:
  assumes "cursor_laid r"
  shows "cursor_laid (fst (room_step rc e r))"
proof (cases "\<exists>now rnd. e = Ev_tick now rnd")
  case True
  then show ?thesis using assms by (auto simp add: tick_room_cursor_laid)
next
  case False
  with room_step_cursor [of rc e r] show ?thesis
    using assms by (auto simp add: cursor_laid_def)
qed

lemma reachable_cursor_laid: "reachable r \<Longrightarrow> cursor_laid r"
proof (induction rule: reachable.induct)
  case (fresh creator now)
  show ?case by (simp add: cursor_laid_def new_room_def)
next
  case (step r rc e)
  from step.IH show ?case by (rule room_step_cursor_laid)
qed

lemma room_step_cursor_near:
  assumes "cursor_laid r" and "cursor_near r"
    and "leaderWorldY (fst (room_step rc e r)) \<le> leaderWorldY r"
  shows "cursor_near (fst (room_step rc e r))"
proof (cases "\<exists>now rnd. e = Ev_tick now rnd")
  case True
  then show ?thesis using assms(1,2) by (auto simp add: tick_room_cursor_near)
next
  case False
  with room_step_cursor [of rc e r] show ?thesis
    using assms(2,3) by (auto simp add: cursor_near_def)
qed

lemma run_cursor_near:
  assumes "reachable r" and "cursor_near r" and "no_retreat rc es r"
  shows "cursor_near (fst (run rc es r))"
  using assms
proof (induction es arbitrary: r)
  case Nil
  then show ?case by simp
next
  case (Cons e es)
  let ?r1 = "fst (room_step rc e r)"
  have "reachable ?r1" using Cons.prems(1) by (rule reachable.step)
  moreover have "cursor_near ?r1"
    using reachable_cursor_laid [OF Cons.prems(1)] Cons.prems(2,3)
    by (intro room_step_cursor_near) simp_all
  moreover have "no_retreat rc es ?r1" using Cons.prems(3) by simp
  ultimately have "cursor_near (fst (run rc es ?r1))" by (rule Cons.IH)
  then show ?case by (simp only: fst_run_Cons)
qed

text \<open>A racing tick of a reachable room whose cursor is near the leader.\<close>

lemma tick_room_obstacle_ahead:
  assumes "reachable r" and "cursor_near r"
    and racing: "raceState (fst (tick_room now rnd r)) = RACING"
  shows "\<exists>ob \<in> set (obstacles (fst (tick_room now rnd r))).
            leaderWorldY (fst (tick_room now rnd r)) - spawnAheadPixels < obs_worldY ob
          \<and> obs_worldY ob < leaderWorldY (fst (tick_room now rnd r))"
proof -
  let ?r' = "fst (tick_room now rnd r)"
  have laid: "cursor_laid r" using assms(1) by (rule reachable_cursor_laid)
  note tl = tick_room_laid [OF laid racing]
  from tl [THEN conjunct2, THEN conjunct1] obtain ob where
    ob: "ob \<in> set (obstacles ?r')" "obs_worldY ob = lastSpawnWorldY ?r' + spawnIntervalPixels"
    by (elim bexE)
  note le = tl [THEN conjunct2, THEN conjunct2, THEN conjunct1]
  from tl [THEN conjunct2, THEN conjunct2, THEN conjunct2]
  have "leaderWorldY ?r' < lastSpawnWorldY ?r' + spawnAheadPixels + spawnIntervalPixels"
  proof (elim disjE conjE)
    assume same: "lastSpawnWorldY ?r' = lastSpawnWorldY r" and init: "lastSpawnWorldY r \<noteq> 0"
    from assms(2) init
    have "leaderWorldY r < lastSpawnWorldY r + spawnAheadPixels + spawnIntervalPixels"
      by (simp add: cursor_near_def)
    then show ?thesis by (simp add: same tick_room_leader)
  next
    assume "leaderWorldY ?r' - spawnAheadPixels - spawnIntervalPixels < lastSpawnWorldY ?r'"
    then show ?thesis by simp
  qed
  then have "leaderWorldY ?r' - spawnAheadPixels < obs_worldY ob"
    using ob(2) by simp
  moreover have "obs_worldY ob < leaderWorldY ?r'"
    using ob(2) le by (simp add: spawn_consts)
  ultimately show ?thesis using ob(1) by blast
qed

text \<open>
  C9 (amended). For a tick whose obstacle block runs in the racing state, on a room with
  at least one player: afterwards every obstacle satisfies
  \<open>worldY < trailerWorldY + despawnBuffer\<close> and the spawn cursor is at least the
  spawn-ahead distance ahead of the leader. In every history of a room that starts with
  the cursor not yet initialised (or with the leader less than the spawn-ahead distance
  plus one spawn interval behind the cursor) and in which no event moves the leader
  back (the smallest \<open>worldY\<close> among the players never grows), every such tick
  leaves the leader with an obstacle strictly ahead of it and less than the spawn-ahead
  distance away.
\<close>

theorem obstacle_window_without_retreat:
  assumes "reachable r0" and "cursor_near r0" and "no_retreat rc es r0"
  shows "(players q \<noteq> [] \<and> raceState (fst (tick_room now rnd q)) = RACING \<longrightarrow>
            leaderWorldY (fst (tick_room now rnd q))
              = Min ((\<lambda>kp. worldY (snd kp)) ` set (players (fst (tick_room now rnd q))))
          \<and> trailerWorldY (fst (tick_room now rnd q))
              = Max ((\<lambda>kp. worldY (snd kp)) ` set (players (fst (tick_room now rnd q))))
          \<and> (\<forall>ob \<in> set (obstacles (fst (tick_room now rnd q))).
                obs_worldY ob < trailerWorldY (fst (tick_room now rnd q)) + despawnBufferPixels)
          \<and> lastSpawnWorldY (fst (tick_room now rnd q))
                \<le> leaderWorldY (fst (tick_room now rnd q)) - spawnAheadPixels)
       \<and> (players (fst (run rc es r0)) \<noteq> []
            \<and> raceState (fst (tick_room now rnd (fst (run rc es r0)))) = RACING \<longrightarrow>
            (\<exists>ob \<in> set (obstacles (fst (tick_room now rnd (fst (run rc es r0))))).
                leaderWorldY (fst (tick_room now rnd (fst (run rc es r0)))) - spawnAheadPixels
                  < obs_worldY ob
              \<and> obs_worldY ob < leaderWorldY (fst (tick_room now rnd (fst (run rc es r0)))))
          \<and> obstacles_ahead (fst (tick_room now rnd (fst (run rc es r0)))) \<noteq> [])
       \<and> spawnAheadPixels = 300 * 2 \<and> spawnIntervalPixels = 50 * 2
       \<and> despawnBufferPixels = 100 * 2"
proof -
  let ?q' = "fst (tick_room now rnd q)"
  let ?r = "fst (run rc es r0)"
  let ?r' = "fst (tick_room now rnd ?r)"
  have window: "players q \<noteq> [] \<and> raceState ?q' = RACING \<longrightarrow>
            leaderWorldY ?q' = Min ((\<lambda>kp. worldY (snd kp)) ` set (players ?q'))
          \<and> trailerWorldY ?q' = Max ((\<lambda>kp. worldY (snd kp)) ` set (players ?q'))
          \<and> (\<forall>ob \<in> set (obstacles ?q').
                obs_worldY ob < trailerWorldY ?q' + despawnBufferPixels)
          \<and> lastSpawnWorldY ?q' \<le> leaderWorldY ?q' - spawnAheadPixels"
  proof
    assume h: "players q \<noteq> [] \<and> raceState ?q' = RACING"
    note w = tick_window_bound [OF h [THEN conjunct1] h [THEN conjunct2]]
    show "leaderWorldY ?q' = Min ((\<lambda>kp. worldY (snd kp)) ` set (players ?q'))
          \<and> trailerWorldY ?q' = Max ((\<lambda>kp. worldY (snd kp)) ` set (players ?q'))
          \<and> (\<forall>ob \<in> set (obstacles ?q').
                obs_worldY ob < trailerWorldY ?q' + despawnBufferPixels)
          \<and> lastSpawnWorldY ?q' \<le> leaderWorldY ?q' - spawnAheadPixels"
      by (intro conjI)
        (rule w [THEN conjunct1], rule w [THEN conjunct2, THEN conjunct1],
         rule w [THEN conjunct2, THEN conjunct2, THEN conjunct1],
         rule w [THEN conjunct2, THEN conjunct2, THEN conjunct2, THEN conjunct1])
  qed
  have reach: "reachable ?r" using assms(1) by (rule reachable_run)
  have near: "cursor_near ?r" using assms by (rule run_cursor_near)
  have ahead: "players ?r \<noteq> [] \<and> raceState ?r' = RACING \<longrightarrow>
            (\<exists>ob \<in> set (obstacles ?r').
                leaderWorldY ?r' - spawnAheadPixels < obs_worldY ob
              \<and> obs_worldY ob < leaderWorldY ?r')
          \<and> obstacles_ahead ?r' \<noteq> []"
  proof
    assume h: "players ?r \<noteq> [] \<and> raceState ?r' = RACING"
    from tick_room_obstacle_ahead [OF reach near h [THEN conjunct2]] obtain ob where
      ob: "ob \<in> set (obstacles ?r')" "leaderWorldY ?r' - spawnAheadPixels < obs_worldY ob"
        "obs_worldY ob < leaderWorldY ?r'"
      by (elim bexE conjE)
    then have "ob \<in> set (obstacles_ahead ?r')" by (simp add: obstacles_ahead_def)
    then have "obstacles_ahead ?r' \<noteq> []" by auto
    moreover have "\<exists>ob \<in> set (obstacles ?r').
                leaderWorldY ?r' - spawnAheadPixels < obs_worldY ob
              \<and> obs_worldY ob < leaderWorldY ?r'"
      using ob by (intro bexI [of _ ob] conjI)
    ultimately show "(\<exists>ob \<in> set (obstacles ?r').
                leaderWorldY ?r' - spawnAheadPixels < obs_worldY ob
              \<and> obs_worldY ob < leaderWorldY ?r')
          \<and> obstacles_ahead ?r' \<noteq> []"
      by (intro conjI)
  qed
  have vals: "spawnAheadPixels = 300 * 2" "spawnIntervalPixels = 50 * 2"
    "despawnBufferPixels = 100 * 2"
    by (simp_all add: spawn_consts)
  show ?thesis
    by (intro conjI) (fact window ahead vals)+
qed

lemma run_to_racing2:
  "fst (run ''ABCD'' [Ev_start_race ''a'' 1000, Ev_tick 4000 rnd0] lobby2) = racing2"
  by (simp only: fst_run_Cons)
    (simp only: run.simps(1) fst_conv room_step.simps racing2_def countdown2_def)

theorem obstacle_window_without_retreat_witness:
  "reachable lobby2 \<and> cursor_near lobby2
   \<and> no_retreat ''ABCD'' [Ev_start_race ''a'' 1000, Ev_tick 4000 rnd0] lobby2
   \<and> players racing2 \<noteq> [] \<and> lastSpawnWorldY racing2 = - 600
   \<and> raceState (fst (tick_room 5000 rnd0 racing2)) = RACING
   \<and> lastSpawnWorldY (fst (tick_room 5000 rnd0 racing2))
        \<le> leaderWorldY (fst (tick_room 5000 rnd0 racing2)) - spawnAheadPixels
   \<and> obstacles_ahead (fst (tick_room 5000 rnd0 racing2)) \<noteq> []"
proof -
  have s1: "fst (start_race ''a'' 1000 lobby2) = countdown2" by (simp add: countdown2_def)
  have s2: "fst (tick_room 4000 rnd0 countdown2) = racing2" by (simp add: racing2_def)
  have lead: "leaderWorldY lobby2 = 0" "leaderWorldY countdown2 = 0" "leaderWorldY racing2 = 0"
    by (simp_all add: lobby2_val countdown2_val racing2_val leaderWorldY_def world_extent_def)
  have near: "cursor_near lobby2" by (simp add: cursor_near_def lobby2_val)
  have nr: "no_retreat ''ABCD'' [Ev_start_race ''a'' 1000, Ev_tick 4000 rnd0] lobby2"
    by (simp add: s1 s2 lead)
  have p: "players racing2 \<noteq> []" and c: "lastSpawnWorldY racing2 = - 600"
    by (simp_all add: racing2_val)
  have "raceState racing2 = RACING" by (simp add: racing2_val)
  then have r: "raceState (fst (tick_room 5000 rnd0 racing2)) = RACING"
    by (rule tick_room_racing_frame)
  note t = obstacle_window_without_retreat [OF reachable_lobby2 near nr,
      where q = racing2 and now = 5000 and rnd = rnd0, unfolded run_to_racing2]
  have w: "lastSpawnWorldY (fst (tick_room 5000 rnd0 racing2))
        \<le> leaderWorldY (fst (tick_room 5000 rnd0 racing2)) - spawnAheadPixels"
    by (rule t [THEN conjunct1, THEN mp, OF conjI [OF p r], THEN conjunct2, THEN conjunct2,
          THEN conjunct2])
  have a: "obstacles_ahead (fst (tick_room 5000 rnd0 racing2)) \<noteq> []"
    by (rule t [THEN conjunct2, THEN conjunct1, THEN mp, OF conjI [OF p r], THEN conjunct2])
  show ?thesis
    by (intro conjI) (fact reachable_lobby2 near nr p c r w a)+
qed

end
